theory Spec2Isabelle
  imports Main "HOL-Library.Word" "HOL-Library.AList"
begin

section \<open>JavaScript strings\<close>

text \<open>
  A JavaScript string is a sequence of UTF-16 code units; \<open>length\<close>, \<open>slice\<close> and
  \<open>trim\<close> count and inspect code units. ASCII literals of the source are written
  \<open>js ''...''\<close>.
\<close>

type_synonym code_unit = "16 word"
type_synonym jsstring = "code_unit list"

definition js :: "string \<Rightarrow> jsstring" where
  "js s = map of_char s"

text \<open>\<open>s.slice(0, n)\<close> for a non-negative \<open>n\<close>, on a string or an array: the first \<open>n\<close>
  code units or elements, or all of \<open>s\<close> when it is shorter.\<close>

definition slice0 :: "'a list \<Rightarrow> nat \<Rightarrow> 'a list" where
  "slice0 s n = take n s"

text \<open>The code units \<open>String.prototype.trim\<close> strips: ECMAScript's WhiteSpace and
  LineTerminator productions (TAB, LF, VT, FF, CR, SP, NBSP, U+1680, U+2000..U+200A,
  U+2028, U+2029, U+202F, U+205F, U+3000, U+FEFF).\<close>

definition is_trim_space :: "code_unit \<Rightarrow> bool" where
  "is_trim_space c \<longleftrightarrow>
     c = 0x09 \<or> c = 0x0A \<or> c = 0x0B \<or> c = 0x0C \<or> c = 0x0D \<or> c = 0x20 \<or> c = 0xA0 \<or>
     c = 0x1680 \<or> (0x2000 \<le> c \<and> c \<le> 0x200A) \<or> c = 0x2028 \<or> c = 0x2029 \<or>
     c = 0x202F \<or> c = 0x205F \<or> c = 0x3000 \<or> c = 0xFEFF"

definition trim :: "jsstring \<Rightarrow> jsstring" where
  "trim s = rev (dropWhile is_trim_space (rev (dropWhile is_trim_space s)))"

text \<open>\<open>text.trim().slice(0, 1000)\<close>, the expression of line 14 of the handler and, with
  \<open>MAX_LEN\<close> for the bound, of line 28 of the page.\<close>

definition trim_slice :: "jsstring \<Rightarrow> nat \<Rightarrow> jsstring" where
  "trim_slice s n = slice0 (trim s) n"

section \<open>JSON values and \<open>JSON.parse\<close>\<close>

text \<open>
  The values \<open>JSON.parse\<close> produces. A number keeps its lexeme: the handler never
  inspects a number's value. An object is an association list with distinct keys
  (a later duplicate member overwrites the earlier one, as in JavaScript).
\<close>

datatype json =
    JNull
  | JBool bool
  | JNumber jsstring
  | JString jsstring
  | JArray "json list"
  | JObject "(jsstring \<times> json) list"

definition is_json_space :: "code_unit \<Rightarrow> bool" where
  "is_json_space c \<longleftrightarrow> c = 0x20 \<or> c = 0x09 \<or> c = 0x0A \<or> c = 0x0D"

definition skip_ws :: "jsstring \<Rightarrow> jsstring" where
  "skip_ws s = dropWhile is_json_space s"

definition is_digit :: "code_unit \<Rightarrow> bool" where
  "is_digit c \<longleftrightarrow> 0x30 \<le> c \<and> c \<le> 0x39"

definition hex_digit :: "code_unit \<Rightarrow> code_unit option" where
  "hex_digit c =
     (if 0x30 \<le> c \<and> c \<le> 0x39 then Some (c - 0x30)
      else if 0x41 \<le> c \<and> c \<le> 0x46 then Some (c - 0x37)
      else if 0x61 \<le> c \<and> c \<le> 0x66 then Some (c - 0x57)
      else None)"

definition hex4 :: "code_unit \<Rightarrow> code_unit \<Rightarrow> code_unit \<Rightarrow> code_unit \<Rightarrow> code_unit option" where
  "hex4 a b c d =
     (case (hex_digit a, hex_digit b, hex_digit c, hex_digit d) of
        (Some w, Some x, Some y, Some z) \<Rightarrow> Some (((w * 16 + x) * 16 + y) * 16 + z)
      | _ \<Rightarrow> None)"

text \<open>The escapes \<open>\" \\ \/ \b \f \n \r \t\<close>, by the code unit after the backslash.\<close>

definition simple_escape :: "code_unit \<Rightarrow> code_unit option" where
  "simple_escape e =
     (if e = 0x22 then Some 0x22
      else if e = 0x5C then Some 0x5C
      else if e = 0x2F then Some 0x2F
      else if e = 0x62 then Some 0x08
      else if e = 0x66 then Some 0x0C
      else if e = 0x6E then Some 0x0A
      else if e = 0x72 then Some 0x0D
      else if e = 0x74 then Some 0x09
      else None)"

text \<open>The characters of a string literal after its opening quote, up to and including
  the closing quote; the result is the string's value and the rest of the input.\<close>

fun parse_chars :: "jsstring \<Rightarrow> (jsstring \<times> jsstring) option" where
  "parse_chars [] = None"
| "parse_chars (c # cs) =
     (if c = 0x22 then Some ([], cs)
      else if c = 0x5C then
        (case cs of
           [] \<Rightarrow> None
         | e # r \<Rightarrow>
             (if e = 0x75 then
                (case r of
                   h1 # h2 # h3 # h4 # r' \<Rightarrow>
                     (case hex4 h1 h2 h3 h4 of
                        None \<Rightarrow> None
                      | Some u \<Rightarrow>
                          (case parse_chars r' of
                             None \<Rightarrow> None
                           | Some (v, rest) \<Rightarrow> Some (u # v, rest)))
                 | _ \<Rightarrow> None)
              else
                (case simple_escape e of
                   None \<Rightarrow> None
                 | Some u \<Rightarrow>
                     (case parse_chars r of
                        None \<Rightarrow> None
                      | Some (v, rest) \<Rightarrow> Some (u # v, rest)))))
      else if c < 0x20 then None
      else
        (case parse_chars cs of
           None \<Rightarrow> None
         | Some (v, rest) \<Rightarrow> Some (c # v, rest)))"

text \<open>A non-empty run of decimal digits.\<close>

definition digits1 :: "jsstring \<Rightarrow> (jsstring \<times> jsstring) option" where
  "digits1 s =
     (if takeWhile is_digit s = [] then None
      else Some (takeWhile is_digit s, dropWhile is_digit s))"

text \<open>The JSON number grammar: \<open>-? (0 | [1-9][0-9]*) (. [0-9]+)? ([eE] [+-]? [0-9]+)?\<close>.\<close>

definition parse_int_part :: "jsstring \<Rightarrow> (jsstring \<times> jsstring) option" where
  "parse_int_part s =
     (case s of
        [] \<Rightarrow> None
      | c # r \<Rightarrow> if c = 0x30 then Some ([c], r) else digits1 s)"

definition parse_frac_part :: "jsstring \<Rightarrow> (jsstring \<times> jsstring) option" where
  "parse_frac_part s =
     (case s of
        [] \<Rightarrow> Some ([], s)
      | c # r \<Rightarrow>
          if c = 0x2E then
            (case digits1 r of None \<Rightarrow> None | Some (d, r') \<Rightarrow> Some (c # d, r'))
          else Some ([], s))"

definition parse_exp_part :: "jsstring \<Rightarrow> (jsstring \<times> jsstring) option" where
  "parse_exp_part s =
     (case s of
        [] \<Rightarrow> Some ([], s)
      | c # r \<Rightarrow>
          if c = 0x65 \<or> c = 0x45 then
            (case r of
               [] \<Rightarrow> None
             | g # r' \<Rightarrow>
                 if g = 0x2B \<or> g = 0x2D then
                   (case digits1 r' of None \<Rightarrow> None | Some (d, r'') \<Rightarrow> Some (c # g # d, r''))
                 else
                   (case digits1 r of None \<Rightarrow> None | Some (d, r'') \<Rightarrow> Some (c # d, r'')))
          else Some ([], s))"

definition parse_unsigned :: "jsstring \<Rightarrow> (jsstring \<times> jsstring) option" where
  "parse_unsigned s =
     (case parse_int_part s of
        None \<Rightarrow> None
      | Some (i, r1) \<Rightarrow>
          (case parse_frac_part r1 of
             None \<Rightarrow> None
           | Some (f, r2) \<Rightarrow>
               (case parse_exp_part r2 of
                  None \<Rightarrow> None
                | Some (e, r3) \<Rightarrow> Some (i @ f @ e, r3))))"

definition parse_number :: "jsstring \<Rightarrow> (jsstring \<times> jsstring) option" where
  "parse_number s =
     (case s of
        [] \<Rightarrow> None
      | c # r \<Rightarrow>
          if c = 0x2D then
            (case parse_unsigned r of None \<Rightarrow> None | Some (n, r') \<Rightarrow> Some (c # n, r'))
          else parse_unsigned s)"

text \<open>A literal name (\<open>null\<close>, \<open>true\<close>, \<open>false\<close>) at the head of the input.\<close>

definition strip_prefix :: "jsstring \<Rightarrow> jsstring \<Rightarrow> jsstring option" where
  "strip_prefix p s = (if take (length p) s = p then Some (drop (length p) s) else None)"

definition parse_scalar :: "jsstring \<Rightarrow> (json \<times> jsstring) option" where
  "parse_scalar s =
     (case s of
        [] \<Rightarrow> None
      | c # r \<Rightarrow>
          if c = 0x22 then
            (case parse_chars r of None \<Rightarrow> None | Some (v, r') \<Rightarrow> Some (JString v, r'))
          else
            (case strip_prefix (js ''null'') s of
               Some r' \<Rightarrow> Some (JNull, r')
             | None \<Rightarrow>
                 (case strip_prefix (js ''true'') s of
                    Some r' \<Rightarrow> Some (JBool True, r')
                  | None \<Rightarrow>
                      (case strip_prefix (js ''false'') s of
                         Some r' \<Rightarrow> Some (JBool False, r')
                       | None \<Rightarrow>
                           (case parse_number s of
                              None \<Rightarrow> None
                            | Some (n, r') \<Rightarrow> Some (JNumber n, r'))))))"

text \<open>Members of an object literal in source order become the object: a repeated key
  keeps its first position and takes the last value.\<close>

definition make_object :: "(jsstring \<times> json) list \<Rightarrow> json" where
  "make_object ms = JObject (foldl (\<lambda>obj (k, v). AList.update k v obj) [] ms)"

text \<open>
  Values, array elements and object members. The first argument bounds the number of
  nested calls; every second nested call has consumed at least one code unit, so
  \<open>JSON_parse\<close> starts with twice the length of the input and two to spare.
  \<open>parse_elements\<close> reads after \<open>[\<close> when the array is not empty, \<open>parse_members\<close>
  after \<open>{\<close> when the object is not empty.
\<close>

fun parse_value :: "nat \<Rightarrow> jsstring \<Rightarrow> (json \<times> jsstring) option"
  and parse_elements :: "nat \<Rightarrow> jsstring \<Rightarrow> (json list \<times> jsstring) option"
  and parse_members :: "nat \<Rightarrow> jsstring \<Rightarrow> ((jsstring \<times> json) list \<times> jsstring) option"
where
  "parse_value 0 s = None"
| "parse_value (Suc n) s =
     (case skip_ws s of
        [] \<Rightarrow> None
      | c # r \<Rightarrow>
          if c = 0x5B then
            (case skip_ws r of
               [] \<Rightarrow> None
             | d # r' \<Rightarrow>
                 if d = 0x5D then Some (JArray [], r')
                 else
                   (case parse_elements n r of
                      None \<Rightarrow> None
                    | Some (vs, rest) \<Rightarrow> Some (JArray vs, rest)))
          else if c = 0x7B then
            (case skip_ws r of
               [] \<Rightarrow> None
             | d # r' \<Rightarrow>
                 if d = 0x7D then Some (JObject [], r')
                 else
                   (case parse_members n r of
                      None \<Rightarrow> None
                    | Some (ms, rest) \<Rightarrow> Some (make_object ms, rest)))
          else parse_scalar (c # r))"
| "parse_elements 0 s = None"
| "parse_elements (Suc n) s =
     (case parse_value n s of
        None \<Rightarrow> None
      | Some (v, r) \<Rightarrow>
          (case skip_ws r of
             [] \<Rightarrow> None
           | c # r' \<Rightarrow>
               if c = 0x2C then
                 (case parse_elements n r' of
                    None \<Rightarrow> None
                  | Some (vs, rest) \<Rightarrow> Some (v # vs, rest))
               else if c = 0x5D then Some ([v], r')
               else None))"
| "parse_members 0 s = None"
| "parse_members (Suc n) s =
     (case skip_ws s of
        [] \<Rightarrow> None
      | q # r \<Rightarrow>
          if q = 0x22 then
            (case parse_chars r of
               None \<Rightarrow> None
             | Some (k, r1) \<Rightarrow>
                 (case skip_ws r1 of
                    [] \<Rightarrow> None
                  | c # r2 \<Rightarrow>
                      if c = 0x3A then
                        (case parse_value n r2 of
                           None \<Rightarrow> None
                         | Some (v, r3) \<Rightarrow>
                             (case skip_ws r3 of
                                [] \<Rightarrow> None
                              | d # r4 \<Rightarrow>
                                  if d = 0x2C then
                                    (case parse_members n r4 of
                                       None \<Rightarrow> None
                                     | Some (ms, rest) \<Rightarrow> Some ((k, v) # ms, rest))
                                  else if d = 0x7D then Some ([(k, v)], r4)
                                  else None))
                      else None))
          else None)"

text \<open>\<open>JSON.parse(s)\<close>: \<open>None\<close> stands for the \<open>SyntaxError\<close> it throws. The call stack
  of the runtime, which bounds the nesting depth a real parse can reach, is not modelled.\<close>

definition JSON_parse :: "jsstring \<Rightarrow> json option" where
  "JSON_parse s =
     (case parse_value (2 * length s + 2) s of
        None \<Rightarrow> None
      | Some (v, r) \<Rightarrow> if skip_ws r = [] then Some v else None)"

section \<open>JavaScript operations on JSON values\<close>

text \<open>
  A value that may be \<open>undefined\<close> is a \<open>json option\<close>, with \<open>None\<close> for \<open>undefined\<close>.
  \<open>get_prop v k\<close> is the property read \<open>v.k\<close> on a value that is neither \<open>null\<close> nor
  \<open>undefined\<close>, for a name \<open>k\<close> that no built-in prototype defines (the handler reads
  \<open>text\<close>, \<open>choices\<close>, \<open>message\<close>, \<open>content\<close>, \<open>tool_calls\<close>, \<open>function\<close>,
  \<open>arguments\<close>, \<open>question\<close>, \<open>answer\<close> and \<open>quizzes\<close>): only an object can hold it.
\<close>

definition get_prop :: "json \<Rightarrow> jsstring \<Rightarrow> json option" where
  "get_prop v k = (case v of JObject ms \<Rightarrow> map_of ms k | _ \<Rightarrow> None)"

text \<open>\<open>v[0]\<close>: the first element of an array, the first code unit of a string (as a
  string), the property \<open>"0"\<close> of an object.\<close>

definition index0 :: "json \<Rightarrow> json option" where
  "index0 v =
     (case v of
        JArray xs \<Rightarrow> (case xs of [] \<Rightarrow> None | x # _ \<Rightarrow> Some x)
      | JString s \<Rightarrow> (case s of [] \<Rightarrow> None | c # _ \<Rightarrow> Some (JString [c]))
      | JObject ms \<Rightarrow> map_of ms (js ''0'')
      | _ \<Rightarrow> None)"

text \<open>Optional chaining \<open>v?.k\<close> and \<open>v?.[0]\<close>, and the nullish coalescing \<open>a ?? b\<close>.\<close>

definition opt_prop :: "json option \<Rightarrow> jsstring \<Rightarrow> json option" where
  "opt_prop v k =
     (case v of None \<Rightarrow> None | Some JNull \<Rightarrow> None | Some x \<Rightarrow> get_prop x k)"

definition opt_index0 :: "json option \<Rightarrow> json option" where
  "opt_index0 v =
     (case v of None \<Rightarrow> None | Some JNull \<Rightarrow> None | Some x \<Rightarrow> index0 x)"

definition coalesce :: "json option \<Rightarrow> json option \<Rightarrow> json option" where
  "coalesce a b = (case a of None \<Rightarrow> b | Some JNull \<Rightarrow> b | Some x \<Rightarrow> Some x)"

text \<open>\<open>x && typeof x === 'object'\<close>: arrays and objects; \<open>null\<close> is falsy.\<close>

definition is_object :: "json \<Rightarrow> bool" where
  "is_object x = (case x of JArray _ \<Rightarrow> True | JObject _ \<Rightarrow> True | _ \<Rightarrow> False)"

text \<open>\<open>k in x\<close> for an \<open>x\<close> that passed \<open>is_object\<close>, for the names of the handler: an
  array has its indices and \<open>length\<close> only.\<close>

definition has_prop :: "jsstring \<Rightarrow> json \<Rightarrow> bool" where
  "has_prop k x = (case x of JObject ms \<Rightarrow> k \<in> fst ` set ms | _ \<Rightarrow> False)"

definition isArray :: "json \<Rightarrow> bool" where
  "isArray x = (case x of JArray _ \<Rightarrow> True | _ \<Rightarrow> False)"

text \<open>\<open>Array.prototype.join\<close> with the separator \<open>,\<close> over elements already
  converted; \<open>None\<close> is a conversion that threw.\<close>

fun join_comma :: "jsstring option list \<Rightarrow> jsstring option" where
  "join_comma [] = Some []"
| "join_comma [x] = x"
| "join_comma (x # y # ys) =
     (case x of
        None \<Rightarrow> None
      | Some a \<Rightarrow>
          (case join_comma (y # ys) of None \<Rightarrow> None | Some b \<Rightarrow> Some (a @ [0x2C] @ b)))"

text \<open>
  \<open>ToString\<close>, which \<open>JSON.parse\<close> applies to its argument. The decimal rendering of a
  number is the parameter \<open>nts\<close> (from the lexeme kept in \<open>JNumber\<close>). An array joins
  its elements, \<open>null\<close> as the empty string. An object is \<open>[object Object]\<close>, unless
  it has a property \<open>toString\<close>, which parsed JSON never makes callable: then the
  conversion throws a \<open>TypeError\<close> (\<open>None\<close>).
\<close>

fun ToString :: "(jsstring \<Rightarrow> jsstring) \<Rightarrow> json \<Rightarrow> jsstring option" where
  "ToString nts JNull = Some (js ''null'')"
| "ToString nts (JBool b) = Some (if b then js ''true'' else js ''false'')"
| "ToString nts (JNumber n) = Some (nts n)"
| "ToString nts (JString s) = Some s"
| "ToString nts (JArray xs) =
     join_comma (map (\<lambda>x. if x = JNull then Some [] else ToString nts x) xs)"
| "ToString nts (JObject ms) =
     (if js ''toString'' \<in> fst ` set ms then None else Some (js ''[object Object]''))"

text \<open>
  \<open>content.match(/\[[\s\S]*\]/)\<close> on a string: the pattern is greedy, so the match runs
  from the first \<open>[\<close> to the last \<open>]\<close> after it; \<open>None\<close> is \<open>null\<close> (no match). The
  result is \<open>match[0]\<close>.
\<close>

definition regex_match :: "jsstring \<Rightarrow> jsstring option" where
  "regex_match s =
     (case dropWhile (\<lambda>c. c \<noteq> 0x5B) s of
        [] \<Rightarrow> None
      | b # rest \<Rightarrow>
          if 0x5D \<in> set rest
          then Some (b # rev (dropWhile (\<lambda>c. c \<noteq> 0x5D) (rev rest)))
          else None)"

section \<open>The quiz endpoint: \<open>POST /api/quiz\<close>\<close>

subsection \<open>Requests, responses and the world\<close>

text \<open>The incoming request: the text of its body, which \<open>request.json()\<close> parses.\<close>

record request =
  request_body :: jsstring

datatype js_error = SyntaxError | TypeError | NetworkError

text \<open>The \<open>details\<close> field is the provider's text, or the message of a caught exception
  (kept as the exception: the message texts are the runtime's).\<close>

datatype details = Text jsstring | Message js_error

record QA =
  question :: jsstring
  answer :: jsstring

text \<open>\<open>{ quizzes }\<close> or \<open>{ error, details?, raw? }\<close>.\<close>

datatype response_body =
    QuizzesBody "QA list"
  | ErrorBody jsstring "details option" "json option"

record response =
  status :: nat
  body :: response_body

definition Response_json :: "response_body \<Rightarrow> nat \<Rightarrow> response" where
  "Response_json b st = \<lparr>status = st, body = b\<rparr>"

text \<open>The outbound call: \<open>payload\<close> is the object passed to \<open>JSON.stringify\<close>.\<close>

record fetch_request =
  url :: jsstring
  http_method :: jsstring
  headers :: "(jsstring \<times> jsstring) list"
  payload :: json

text \<open>The provider's answer: \<open>body_text\<close> is \<open>None\<close> when reading the body rejects.\<close>

record provider_response =
  ok :: bool
  statusText :: jsstring
  body_text :: "jsstring option"

datatype fetch_result = Rejects js_error | Resolves provider_response

text \<open>What the handler reads from outside: the two environment variables, the network,
  and the runtime's rendering of numbers.\<close>

record world =
  NEXT_PUBLIC_OPENAI_API_KEY :: "jsstring option"
  OPENAI_API_KEY :: "jsstring option"
  fetch :: "fetch_request \<Rightarrow> fetch_result"
  Number_toString :: "jsstring \<Rightarrow> jsstring"

text \<open>A stage of the handler goes on with a value, returns a response, or throws into
  the handler's \<open>catch\<close>.\<close>

datatype 'a step = Continue 'a | Return response | Throw js_error

fun and_then :: "'a step \<Rightarrow> ('a \<Rightarrow> 'b step) \<Rightarrow> 'b step" where
  "and_then (Continue x) f = f x"
| "and_then (Return r) f = Return r"
| "and_then (Throw e) f = Throw e"

subsection \<open>The stages of \<open>POST\<close>\<close>

text \<open>\<open>await request.json()\<close>: a body that is not JSON rejects.\<close>

definition request_json :: "request \<Rightarrow> json step" where
  "request_json req =
     (case JSON_parse (request_body req) of
        None \<Rightarrow> Throw SyntaxError
      | Some v \<Rightarrow> Continue v)"

text \<open>\<open>const { text } = ...\<close>: destructuring \<open>null\<close> throws a \<open>TypeError\<close>; any other
  value yields its property \<open>text\<close>, or \<open>undefined\<close>.\<close>

definition destructure_text :: "json \<Rightarrow> json option step" where
  "destructure_text v = (case v of JNull \<Rightarrow> Throw TypeError | _ \<Rightarrow> Continue (get_prop v (js ''text'')))"

text \<open>
  Lines 10 to 17. \<open>!text || typeof text !== 'string'\<close> holds for \<open>undefined\<close>, for every
  value that is not a string, and for the empty string (which is falsy).
\<close>

definition check_text :: "json option \<Rightarrow> jsstring step" where
  "check_text t =
     (case t of
        Some (JString s) \<Rightarrow>
          if s = [] then Return (Response_json (ErrorBody (js ''text is required'') None None) 400)
          else if trim_slice s 1000 = []
          then Return (Response_json (ErrorBody (js ''text must not be empty'') None None) 400)
          else Continue (trim_slice s 1000)
      | _ \<Rightarrow> Return (Response_json (ErrorBody (js ''text is required'') None None) 400))"

text \<open>\<open>a || b\<close> on two environment variables: the first when it is set and not empty,
  else the second.\<close>

definition env_or :: "jsstring option \<Rightarrow> jsstring option \<Rightarrow> jsstring option" where
  "env_or a b = (case a of None \<Rightarrow> b | Some k \<Rightarrow> if k = [] then b else Some k)"

definition apiKey :: "world \<Rightarrow> jsstring option" where
  "apiKey w = env_or (NEXT_PUBLIC_OPENAI_API_KEY w) (OPENAI_API_KEY w)"

text \<open>Lines 20 to 25: \<open>!apiKey\<close> holds for \<open>undefined\<close> and for the empty string.\<close>

definition check_apiKey :: "world \<Rightarrow> jsstring step" where
  "check_apiKey w =
     (case apiKey w of
        None \<Rightarrow>
          Return (Response_json (ErrorBody
            (js ''Missing OpenAI API key in environment (set NEXT_PUBLIC_OPENAI_API_KEY or OPENAI_API_KEY)'')
            None None) 500)
      | Some k \<Rightarrow>
          if k = [] then
            Return (Response_json (ErrorBody
              (js ''Missing OpenAI API key in environment (set NEXT_PUBLIC_OPENAI_API_KEY or OPENAI_API_KEY)'')
              None None) 500)
          else Continue k)"

text \<open>The prompts (lines 28 to 51). Their Japanese text is given by its code units.\<close>

definition systemPrompt :: jsstring where
  "systemPrompt =
    [0x3042, 0x306A, 0x305F, 0x306F, 0x4E0E, 0x3048, 0x3089, 0x308C, 0x305F, 0x672C, 0x6587,
     0x3060, 0x3051, 0x3092, 0x6839, 0x62E0, 0x3068, 0x3057, 0x3066, 0x65E5, 0x672C, 0x8A9E,
     0x306E, 0x30AF, 0x30A4, 0x30BA, 0x3092, 0x4F5C, 0x6210, 0x3059, 0x308B, 0x30A2, 0x30B7,
     0x30B9, 0x30BF, 0x30F3, 0x30C8, 0x3067, 0x3059, 0x3002, 0x51FA, 0x529B, 0x306F, 0x5FC5,
     0x305A, 0x004A, 0x0053, 0x004F, 0x004E, 0x306E, 0x307F, 0x3067, 0x3001, 0x8AAC, 0x660E,
     0x6587, 0x3084, 0x524D, 0x5F8C, 0x306E, 0x30C6, 0x30AD, 0x30B9, 0x30C8, 0x306F, 0x4E00,
     0x5207, 0x542B, 0x3081, 0x306A, 0x3044, 0x3067, 0x304F, 0x3060, 0x3055, 0x3044, 0x3002]"

text \<open>The line \<open>{ "question": "...", "answer": "..." }\<close> of the example, which the
  source writes five times (four times with a trailing comma).\<close>

definition example_item :: jsstring where
  "example_item =
     js ''    { \"question\": \"'' @ [0x8CEA, 0x554F, 0x6587] @ js ''\", \"answer\": \"'' @
     [0x6A21, 0x7BC4, 0x89E3, 0x7B54, 0xFF08, 0x7C21, 0x6F54, 0x306B, 0xFF09] @ js ''\" }''"

definition prompt_lines :: "jsstring \<Rightarrow> jsstring list" where
  "prompt_lines trimmed =
    [[0x6B21, 0x306E, 0x672C, 0x6587, 0x304B, 0x3089, 0x3001, 0x5185, 0x5BB9, 0x306B, 0x57FA,
      0x3065, 0x3044, 0x305F, 0x65E5, 0x672C, 0x8A9E, 0x306E, 0x30AF, 0x30A4, 0x30BA, 0x3092,
      0x0035, 0x554F, 0x4F5C, 0x6210, 0x3057, 0x3066, 0x304F, 0x3060, 0x3055, 0x3044, 0x3002],
     [0x51FA, 0x529B, 0x306F, 0x6B21, 0x306E, 0x004A, 0x0053, 0x004F, 0x004E, 0x30AA, 0x30D6,
      0x30B8, 0x30A7, 0x30AF, 0x30C8, 0x5F62, 0x5F0F, 0x306B, 0x3057, 0x3066, 0x304F, 0x3060,
      0x3055, 0x3044, 0xFF08, 0x914D, 0x5217, 0x306F, 0x0022, 0x0071, 0x0075, 0x0069, 0x007A,
      0x007A, 0x0065, 0x0073, 0x0022, 0x30D7, 0x30ED, 0x30D1, 0x30C6, 0x30A3, 0x306B, 0x5165,
      0x308C, 0x308B, 0xFF09, 0x003A],
     [],
     js ''{'',
     js ''  \"quizzes\": ['',
     example_item @ js '','',
     example_item @ js '','',
     example_item @ js '','',
     example_item @ js '','',
     example_item,
     js ''  ]'',
     js ''}'',
     [],
     [0x8981, 0x4EF6, 0x003A],
     [0x002D, 0x0020, 0x7D76, 0x5BFE, 0x306B, 0x6709, 0x52B9, 0x306A, 0x004A, 0x0053, 0x004F,
      0x004E, 0x30AA, 0x30D6, 0x30B8, 0x30A7, 0x30AF, 0x30C8, 0x306E, 0x307F, 0x3092, 0x51FA,
      0x529B, 0xFF08, 0x524D, 0x5F8C, 0x306E, 0x8AAC, 0x660E, 0x3084, 0x30B3, 0x30FC, 0x30C9,
      0x30D6, 0x30ED, 0x30C3, 0x30AF, 0x7981, 0x6B62, 0xFF09],
     [0x002D, 0x0020, 0x5404, 0x0071, 0x0075, 0x0065, 0x0073, 0x0074, 0x0069, 0x006F, 0x006E,
      0x002F, 0x0061, 0x006E, 0x0073, 0x0077, 0x0065, 0x0072, 0x306F, 0x672C, 0x6587, 0x306E,
      0x60C5, 0x5831, 0x306B, 0x57FA, 0x3065, 0x304F, 0x3053, 0x3068],
     [0x002D, 0x0020, 0x8CEA, 0x554F, 0x306F, 0x7C21, 0x6F54, 0x306B, 0x3001, 0x7B54, 0x3048,
      0x3082, 0x7C21, 0x6F54, 0x306B],
     [],
     [0x672C, 0x6587, 0x003A],
     trimmed]"

text \<open>\<open>lines.join('\n')\<close>.\<close>

fun join_lines :: "jsstring list \<Rightarrow> jsstring" where
  "join_lines [] = []"
| "join_lines [l] = l"
| "join_lines (l # m # ls) = l @ [0x0A] @ join_lines (m # ls)"

definition userPrompt :: "jsstring \<Rightarrow> jsstring" where
  "userPrompt trimmed = join_lines (prompt_lines trimmed)"

text \<open>The call of lines 54 to 69.\<close>

definition chat_completions :: "jsstring \<Rightarrow> jsstring \<Rightarrow> fetch_request" where
  "chat_completions key trimmed =
     \<lparr>url = js ''https://api.openai.com/v1/chat/completions'',
      http_method = js ''POST'',
      headers =
        [(js ''Authorization'', js ''Bearer '' @ key),
         (js ''Content-Type'', js ''application/json'')],
      payload =
        JObject
          [(js ''model'', JString (js ''gpt-4o-mini'')),
           (js ''messages'',
              JArray
                [JObject [(js ''role'', JString (js ''system'')),
                          (js ''content'', JString systemPrompt)],
                 JObject [(js ''role'', JString (js ''user'')),
                          (js ''content'', JString (userPrompt trimmed))]]),
           (js ''temperature'', JNumber (js ''0.7'')),
           (js ''response_format'', JObject [(js ''type'', JString (js ''json_object''))])]\<rparr>"

text \<open>
  Lines 71 to 79. On a failure status the error text is the body, or the empty string
  when reading it rejects, and \<open>errTxt || statusText\<close> falls back on the status text.
  Otherwise \<open>await openaiRes.json()\<close> parses the body.
\<close>

definition read_provider :: "fetch_result \<Rightarrow> json step" where
  "read_provider fr =
     (case fr of
        Rejects e \<Rightarrow> Throw e
      | Resolves res \<Rightarrow>
          if \<not> ok res then
            Return (Response_json
              (ErrorBody (js ''OpenAI API error'')
                 (Some (Text (case body_text res of
                                None \<Rightarrow> statusText res
                              | Some t \<Rightarrow> if t = [] then statusText res else t)))
                 None) 500)
          else
            (case body_text res of
               None \<Rightarrow> Throw TypeError
             | Some t \<Rightarrow>
                 (case JSON_parse t of None \<Rightarrow> Throw SyntaxError | Some d \<Rightarrow> Continue d)))"

text \<open>
  Lines 82 to 85:
  \<open>data?.choices?.[0]?.message?.content ??
   data?.choices?.[0]?.message?.tool_calls?.[0]?.function?.arguments ?? ''\<close>.
  The annotation says \<open>string\<close>, but nothing checks it: the content is whatever JSON
  value the provider put there.
\<close>

definition message_of :: "json \<Rightarrow> json option" where
  "message_of data = opt_prop (opt_index0 (opt_prop (Some data) (js ''choices''))) (js ''message'')"

definition extract_content :: "json \<Rightarrow> json" where
  "extract_content data =
     (case coalesce
             (opt_prop (message_of data) (js ''content''))
             (opt_prop
                (opt_prop (opt_index0 (opt_prop (message_of data) (js ''tool_calls'')))
                   (js ''function''))
                (js ''arguments'')) of
        None \<Rightarrow> JString []
      | Some JNull \<Rightarrow> JString []
      | Some c \<Rightarrow> c)"

text \<open>\<open>JSON.parse(content)\<close>: the argument is converted to a string first; both the
  conversion and the parse can throw.\<close>

definition strict_parse :: "(jsstring \<Rightarrow> jsstring) \<Rightarrow> json \<Rightarrow> json option" where
  "strict_parse nts content =
     (case ToString nts content of None \<Rightarrow> None | Some s \<Rightarrow> JSON_parse s)"

text \<open>
  Lines 88 to 102. When the strict parse throws, the \<open>catch\<close> block calls
  \<open>content.match\<close>: a content that is not a string has no such method
  (\<open>TypeError\<close>). The second \<open>JSON.parse\<close> stands in the \<open>catch\<close> block, outside any
  inner \<open>try\<close>: when it throws, the exception leaves the block.
\<close>

definition parse_content :: "(jsstring \<Rightarrow> jsstring) \<Rightarrow> json \<Rightarrow> json step" where
  "parse_content nts content =
     (case strict_parse nts content of
        Some parsed \<Rightarrow> Continue parsed
      | None \<Rightarrow>
          (case content of
             JString s \<Rightarrow>
               (case regex_match s of
                  Some m \<Rightarrow>
                    (case JSON_parse m of
                       None \<Rightarrow> Throw SyntaxError
                     | Some parsed \<Rightarrow> Continue parsed)
                | None \<Rightarrow>
                    Return (Response_json
                      (ErrorBody (js ''Failed to parse model output'') None (Some content)) 500))
           | _ \<Rightarrow> Throw TypeError))"

text \<open>The callback of \<open>map\<close> (lines 110 to 119, and again 128 to 137): \<open>None\<close> is the
  \<open>null\<close> it returns for an element of the wrong shape.\<close>

definition candidate :: "json \<Rightarrow> QA option" where
  "candidate x =
     (if is_object x \<and> has_prop (js ''question'') x \<and> has_prop (js ''answer'') x then
        (case (get_prop x (js ''question''), get_prop x (js ''answer'')) of
           (Some (JString q), Some (JString a)) \<Rightarrow> Some \<lparr>question = q, answer = a\<rparr>
         | _ \<Rightarrow> None)
      else None)"

text \<open>\<open>xs.map(...).filter(Boolean)\<close>: the objects are truthy, \<open>null\<close> is not.\<close>

definition map_filter_Boolean :: "json list \<Rightarrow> QA list" where
  "map_filter_Boolean xs = map the (filter (\<lambda>y. y \<noteq> None) (map candidate xs))"

text \<open>Lines 104 to 139: a bare array, or an object whose \<open>quizzes\<close> is an array;
  anything else leaves the list empty.\<close>

definition normalize_quizzes :: "json \<Rightarrow> QA list" where
  "normalize_quizzes parsed =
     (case parsed of
        JArray xs \<Rightarrow> map_filter_Boolean xs
      | _ \<Rightarrow>
          if is_object parsed \<and> has_prop (js ''quizzes'') parsed then
            (case get_prop parsed (js ''quizzes'') of
               Some (JArray xs) \<Rightarrow> map_filter_Boolean xs
             | _ \<Rightarrow> [])
          else [])"

text \<open>Lines 141 to 151.\<close>

definition respond :: "json \<Rightarrow> QA list \<Rightarrow> response" where
  "respond content quizzes =
     (if quizzes = [] then
        Response_json (ErrorBody (js ''No quizzes generated'') None (Some content)) 500
      else Response_json (QuizzesBody (slice0 quizzes 5)) 200)"

subsection \<open>The handler\<close>

text \<open>Everything before the outbound call: the validated text and the key.\<close>

definition validated_text :: "request \<Rightarrow> jsstring step" where
  "validated_text req =
     and_then (request_json req) (\<lambda>v.
     and_then (destructure_text v) (\<lambda>t.
     check_text t))"

definition before_fetch :: "world \<Rightarrow> request \<Rightarrow> (jsstring \<times> jsstring) step" where
  "before_fetch w req =
     and_then (validated_text req) (\<lambda>trimmed.
     and_then (check_apiKey w) (\<lambda>key.
     Continue (trimmed, key)))"

text \<open>Everything after it, up to the parsed model output, together with the content
  it was parsed from.\<close>

definition parsed_output :: "world \<Rightarrow> fetch_result \<Rightarrow> (json \<times> json) step" where
  "parsed_output w fr =
     and_then (read_provider fr) (\<lambda>data.
     and_then (parse_content (Number_toString w) (extract_content data)) (\<lambda>parsed.
     Continue (extract_content data, parsed)))"

definition after_fetch :: "world \<Rightarrow> fetch_result \<Rightarrow> response step" where
  "after_fetch w fr =
     and_then (parsed_output w fr) (\<lambda>(content, parsed).
     Return (respond content (normalize_quizzes parsed)))"

text \<open>The \<open>catch\<close> of lines 152 to 157.\<close>

definition unexpected :: "js_error \<Rightarrow> response" where
  "unexpected e =
     Response_json (ErrorBody (js ''Unexpected server error'') (Some (Message e)) None) 500"

definition settle :: "response step \<Rightarrow> response" where
  "settle st = (case st of Continue r \<Rightarrow> r | Return r \<Rightarrow> r | Throw e \<Rightarrow> unexpected e)"

text \<open>\<open>POST\<close>: the response, and the outbound calls made on the way, in order.\<close>

definition POST :: "world \<Rightarrow> request \<Rightarrow> response \<times> fetch_request list" where
  "POST w req =
     (case before_fetch w req of
        Continue (trimmed, key) \<Rightarrow>
          (settle (after_fetch w (fetch w (chat_completions key trimmed))),
           [chat_completions key trimmed])
      | Return r \<Rightarrow> (r, [])
      | Throw e \<Rightarrow> (unexpected e, []))"

text \<open>The content and the parsed value with which a run of the handler reaches the
  normalization of line 104, if it does.\<close>

definition normalize_input :: "world \<Rightarrow> request \<Rightarrow> (json \<times> json) option" where
  "normalize_input w req =
     (case before_fetch w req of
        Continue (trimmed, key) \<Rightarrow>
          (case parsed_output w (fetch w (chat_completions key trimmed)) of
             Continue cp \<Rightarrow> Some cp
           | _ \<Rightarrow> None)
      | _ \<Rightarrow> None)"

section \<open>The client form: \<open>QuizPage\<close>\<close>

definition MAX_LEN :: nat where
  "MAX_LEN = 1000"

record page_state =
  page_text :: jsstring
  page_quizzes :: "QA list"
  page_loading :: bool
  page_error :: "jsstring option"

text \<open>The \<open>onChange\<close> of the text area (line 82).\<close>

definition onChange :: "jsstring \<Rightarrow> page_state \<Rightarrow> page_state" where
  "onChange v st = st\<lparr>page_text := slice0 v MAX_LEN\<rparr>"

text \<open>
  \<open>handleGenerate\<close>, lines 27 to 35: the new state, and the payload of the request that
  the lines after them send (\<open>None\<close> when the handler returns without a request). The
  error text is Japanese, given by its code units.
\<close>

definition handleGenerate :: "page_state \<Rightarrow> page_state \<times> jsstring option" where
  "handleGenerate st =
     (if trim_slice (page_text st) MAX_LEN = [] then
        (st\<lparr>page_error := Some
           [0x30C6, 0x30AD, 0x30B9, 0x30C8, 0x304C, 0x7A7A, 0x3067, 0x3059, 0x3002, 0x5165,
            0x529B, 0x307E, 0x305F, 0x306F, 0x30D5, 0x30A1, 0x30A4, 0x30EB, 0x3092, 0x30A2,
            0x30C3, 0x30D7, 0x30ED, 0x30FC, 0x30C9, 0x3057, 0x3066, 0x304F, 0x3060, 0x3055,
            0x3044, 0x3002]\<rparr>,
         None)
      else
        (st\<lparr>page_loading := True, page_error := None, page_quizzes := []\<rparr>,
         Some (trim_slice (page_text st) MAX_LEN)))"

section \<open>The specification's shape check\<close>

text \<open>
  The shape check in the specification's words: an element is kept when it is an object
  containing both \<open>question\<close> and \<open>answer\<close> as string-typed values; the item kept holds
  these two strings.
\<close>

definition shape_ok :: "json \<Rightarrow> bool" where
  "shape_ok x =
     (case x of
        JObject ms \<Rightarrow>
          (case (map_of ms (js ''question''), map_of ms (js ''answer'')) of
             (Some (JString q), Some (JString a)) \<Rightarrow> True
           | _ \<Rightarrow> False)
      | _ \<Rightarrow> False)"

definition string_prop :: "json \<Rightarrow> jsstring \<Rightarrow> jsstring" where
  "string_prop x k = (case get_prop x k of Some (JString s) \<Rightarrow> s | _ \<Rightarrow> [])"

definition item_of :: "json \<Rightarrow> QA" where
  "item_of x = \<lparr>question = string_prop x (js ''question''), answer = string_prop x (js ''answer'')\<rparr>"

definition spec_filter :: "json list \<Rightarrow> QA list" where
  "spec_filter xs = map item_of (filter shape_ok xs)"

text \<open>A well-formed item of the round trip: an object whose \<open>question\<close> and \<open>answer\<close>
  are the strings of the given pair.\<close>

definition well_formed_item :: "json \<Rightarrow> QA \<Rightarrow> bool" where
  "well_formed_item x qa =
     (case x of
        JObject ms \<Rightarrow>
          map_of ms (js ''question'') = Some (JString (question qa)) \<and>
          map_of ms (js ''answer'') = Some (JString (answer qa))
      | _ \<Rightarrow> False)"

section \<open>Concrete runs\<close>

text \<open>The JSON text of a string that has no control characters: quotes and backslashes
  escaped, in double quotes.\<close>

fun escape_chars :: "jsstring \<Rightarrow> jsstring" where
  "escape_chars [] = []"
| "escape_chars (c # cs) =
     (if c = 0x22 \<or> c = 0x5C then 0x5C # c # escape_chars cs else c # escape_chars cs)"

definition quoted :: "jsstring \<Rightarrow> jsstring" where
  "quoted s = [0x22] @ escape_chars s @ [0x22]"

text \<open>A chat completion whose first choice has the given content.\<close>

definition completion_text :: "jsstring \<Rightarrow> jsstring" where
  "completion_text c =
     js ''{\"choices\":[{\"message\":{\"role\":\"assistant\",\"content\":'' @ quoted c @ js ''}}]}''"

text \<open>The value that text parses to.\<close>

definition completion_data :: "jsstring \<Rightarrow> json" where
  "completion_data c =
     JObject [(js ''choices'',
       JArray [JObject [(js ''message'',
         JObject [(js ''role'', JString (js ''assistant'')), (js ''content'', JString c)])]])]"

text \<open>No code unit of the string is a control character.\<close>

definition printable :: "jsstring \<Rightarrow> bool" where
  "printable c = list_all (\<lambda>x. 0x20 \<le> x) c"

definition completion :: "jsstring \<Rightarrow> provider_response" where
  "completion c = \<lparr>ok = True, statusText = js ''OK'', body_text = Some (completion_text c)\<rparr>"

text \<open>A world with a key in \<open>OPENAI_API_KEY\<close> whose provider answers every call with
  the given content, and a world with no key.\<close>

definition world_answering :: "jsstring \<Rightarrow> world" where
  "world_answering c =
     \<lparr>NEXT_PUBLIC_OPENAI_API_KEY = None, OPENAI_API_KEY = Some (js ''sk-test''),
      fetch = (\<lambda>_. Resolves (completion c)), Number_toString = (\<lambda>n. n)\<rparr>"

definition world_without_key :: world where
  "world_without_key =
     \<lparr>NEXT_PUBLIC_OPENAI_API_KEY = None, OPENAI_API_KEY = Some [],
      fetch = (\<lambda>_. Resolves (completion [])), Number_toString = (\<lambda>n. n)\<rparr>"

definition request_with :: "jsstring \<Rightarrow> request" where
  "request_with b = \<lparr>request_body = b\<rparr>"

definition hello :: request where
  "hello = request_with (js ''{\"text\":\"hello world\"}'')"

definition item :: "string \<Rightarrow> string \<Rightarrow> QA" where
  "item q a = \<lparr>question = js q, answer = js a\<rparr>"

definition five_quizzes :: jsstring where
  "five_quizzes =
     js ''{\"quizzes\":[{\"question\":\"Q1\",\"answer\":\"A1\"},{\"question\":\"Q2\",\"answer\":\"A2\"},'' @
     js ''{\"question\":\"Q3\",\"answer\":\"A3\"},{\"question\":\"Q4\",\"answer\":\"A4\"},'' @
     js ''{\"question\":\"Q5\",\"answer\":\"A5\"}]}''"

definition six_quizzes :: jsstring where
  "six_quizzes =
     js ''[{\"question\":\"Q1\",\"answer\":\"A1\"},{\"question\":\"Q2\",\"answer\":\"A2\"},'' @
     js ''{\"question\":\"Q3\",\"answer\":\"A3\"},{\"question\":\"Q4\",\"answer\":\"A4\"},'' @
     js ''{\"question\":\"Q5\",\"answer\":\"A5\"},{\"question\":\"Q6\",\"answer\":\"A6\"}]''"

definition no_quizzes :: jsstring where
  "no_quizzes = js ''[{\"question\":1,\"answer\":\"A\"},{\"question\":\"Q\"}]''"

definition qa_object :: "string \<Rightarrow> string \<Rightarrow> json" where
  "qa_object q a = JObject [(js ''question'', JString (js q)), (js ''answer'', JString (js a))]"

definition five_items :: "json list" where
  "five_items =
     [qa_object ''Q1'' ''A1'', qa_object ''Q2'' ''A2'', qa_object ''Q3'' ''A3'',
      qa_object ''Q4'' ''A4'', qa_object ''Q5'' ''A5'']"

definition six_items :: "json list" where
  "six_items = five_items @ [qa_object ''Q6'' ''A6'']"

definition no_items :: "json list" where
  "no_items =
     [JObject [(js ''question'', JNumber (js ''1'')), (js ''answer'', JString (js ''A''))],
      JObject [(js ''question'', JString (js ''Q''))]]"

definition five_answers :: "QA list" where
  "five_answers =
     [item ''Q1'' ''A1'', item ''Q2'' ''A2'', item ''Q3'' ''A3'', item ''Q4'' ''A4'',
      item ''Q5'' ''A5'']"

definition not_a_list :: jsstring where
  "not_a_list = js ''{\"quizzes\":\"none\"}''"

definition mixed_items :: "json list" where
  "mixed_items =
     [qa_object ''Q1'' ''A1'',
      JObject [(js ''question'', JString (js ''Q2''))],
      JObject [(js ''question'', JNumber (js ''3'')), (js ''answer'', JString (js ''A3''))],
      JString (js ''Q4''),
      JObject [(js ''answer'', JString (js ''A5'')), (js ''question'', JString (js ''Q5'')),
               (js ''hint'', JNull)]]"

definition mixed_quizzes :: jsstring where
  "mixed_quizzes =
     js ''[{\"question\":\"Q1\",\"answer\":\"A1\"},{\"question\":\"Q2\"},'' @
     js ''{\"question\":3,\"answer\":\"A3\"},\"Q4\",'' @
     js ''{\"answer\":\"A5\",\"question\":\"Q5\",\"hint\":null}]''"

definition bracket_prose :: jsstring where
  "bracket_prose = js ''Sorry, I cannot write a quiz [no text given]''"

definition plain_prose :: jsstring where
  "plain_prose = js ''Sorry, I cannot write a quiz''"

definition empty_strings :: jsstring where
  "empty_strings = js ''[{\"question\":\"\",\"answer\":\"\"}]''"

definition one_quiz :: jsstring where
  "one_quiz = js ''[{\"question\":\"Q\",\"answer\":\"A\"}]''"

definition prose_before :: jsstring where
  "prose_before = js ''Here you go: '' @ one_quiz"

definition prose_around :: jsstring where
  "prose_around = js ''Here you go: '' @ one_quiz @ js '' [end]''"

definition empty_object :: request where
  "empty_object = request_with (js ''{}'')"

definition empty_text :: request where
  "empty_text = request_with (js ''{\"text\":\"\"}'')"

definition blank_text :: request where
  "blank_text = request_with (js ''{\"text\":\"  \"}'')"

text \<open>999 letters, a space and a letter; a space and 1001 letters.\<close>

definition space_at_1000 :: jsstring where
  "space_at_1000 = replicate 999 0x61 @ [0x20, 0x62]"

definition space_first :: jsstring where
  "space_first = 0x20 # replicate 1001 0x61"

text \<open>An environment variable yields no key when it is not set or set to the empty
  string.\<close>

definition unset :: "jsstring option \<Rightarrow> bool" where
  "unset v \<longleftrightarrow> v = None \<or> v = Some []"

section \<open>The fuel of the parser\<close>

text \<open>
  Every successful parse consumes input, so the fuel that \<open>JSON_parse\<close> starts with is
  never used up: with any larger fuel the result is the same. A \<open>None\<close> of \<open>JSON_parse\<close>
  is a syntax error of the text, never a lack of fuel.
\<close>

lemma parse_chars_shorter: "parse_chars s = Some (v, r) \<Longrightarrow> length r < length s"
proof (induction s arbitrary: v r rule: parse_chars.induct)
  case 1
  then show ?case by simp
next
  case (2 c cs)
  show ?case
    using "2.prems" "2.IH"
    by (auto split: if_splits list.splits option.splits) fastforce+
qed

lemma digits1_shorter: "digits1 s = Some (d, r) \<Longrightarrow> length r < length s"
proof -
  assume a: "digits1 s = Some (d, r)"
  then have "takeWhile is_digit s \<noteq> []" and r: "r = dropWhile is_digit s"
    by (auto simp: digits1_def split: if_splits)
  moreover have "length s = length (takeWhile is_digit s) + length (dropWhile is_digit s)"
    by (metis length_append takeWhile_dropWhile_id)
  ultimately show ?thesis by (cases "takeWhile is_digit s") auto
qed

lemma parse_int_part_shorter: "parse_int_part s = Some (d, r) \<Longrightarrow> length r < length s"
  by (auto simp: parse_int_part_def dest: digits1_shorter split: list.splits if_splits)

lemma parse_frac_part_le: "parse_frac_part s = Some (d, r) \<Longrightarrow> length r \<le> length s"
  by (auto simp: parse_frac_part_def dest!: digits1_shorter split: list.splits if_splits option.splits)

lemma parse_exp_part_le: "parse_exp_part s = Some (d, r) \<Longrightarrow> length r \<le> length s"
  by (auto simp: parse_exp_part_def dest!: digits1_shorter split: list.splits if_splits option.splits)

lemma parse_unsigned_shorter: "parse_unsigned s = Some (d, r) \<Longrightarrow> length r < length s"
  by (auto simp: parse_unsigned_def
      dest!: parse_int_part_shorter parse_frac_part_le parse_exp_part_le
      split: option.splits)

lemma parse_number_shorter: "parse_number s = Some (d, r) \<Longrightarrow> length r < length s"
  by (auto simp: parse_number_def dest!: parse_unsigned_shorter split: list.splits if_splits option.splits)

lemma strip_prefix_shorter: "strip_prefix p s = Some r \<Longrightarrow> p \<noteq> [] \<Longrightarrow> s \<noteq> [] \<Longrightarrow> length r < length s"
  by (cases p) (auto simp: strip_prefix_def split: if_splits)

lemma parse_scalar_shorter: "parse_scalar s = Some (v, r) \<Longrightarrow> length r < length s"
  by (cases s)
     (auto simp: parse_scalar_def js_def
      dest!: parse_chars_shorter parse_number_shorter
      dest: strip_prefix_shorter
      split: if_splits option.splits)

lemma skip_ws_le: "length (skip_ws s) \<le> length s"
  by (simp add: skip_ws_def length_dropWhile_le)

lemma skip_ws_Cons: "skip_ws s = c # r \<Longrightarrow> length r < length s"
  using skip_ws_le [of s] by simp

lemma parse_shorter_all:
  "(\<forall>s v r. parse_value n s = Some (v, r) \<longrightarrow> length r < length s) \<and>
   (\<forall>s vs r. parse_elements n s = Some (vs, r) \<longrightarrow> length r < length s) \<and>
   (\<forall>s ms r. parse_members n s = Some (ms, r) \<longrightarrow> length r < length s)"
proof (induction n)
  case 0
  show ?case by simp
next
  case (Suc n)
  then have V: "\<And>s v r. parse_value n s = Some (v, r) \<Longrightarrow> length r < length s"
    and E: "\<And>s vs r. parse_elements n s = Some (vs, r) \<Longrightarrow> length r < length s"
    and M: "\<And>s ms r. parse_members n s = Some (ms, r) \<Longrightarrow> length r < length s"
    by blast+
  have v: "length r < length s" if "parse_value (Suc n) s = Some (v, r)" for s v r
    using that
    by (auto split: list.splits if_splits option.splits
        dest!: skip_ws_Cons E M parse_scalar_shorter)
  have e: "length r < length s" if "parse_elements (Suc n) s = Some (vs, r)" for s vs r
    using that
    by (auto split: list.splits if_splits option.splits dest!: skip_ws_Cons V E)
  have m: "length r < length s" if "parse_members (Suc n) s = Some (ms, r)" for s ms r
    using that
    by (auto split: list.splits if_splits option.splits
        dest!: skip_ws_Cons V M parse_chars_shorter)
  from v e m show ?case by blast
qed

lemma parse_value_shorter: "parse_value n s = Some (v, r) \<Longrightarrow> length r < length s"
  using parse_shorter_all [of n] by blast

lemma fuel_enough_all:
  "(\<forall>s. 2 * length s + 1 \<le> n \<longrightarrow> parse_value (n + k) s = parse_value n s) \<and>
   (\<forall>s. 2 * length s + 2 \<le> n \<longrightarrow> parse_elements (n + k) s = parse_elements n s) \<and>
   (\<forall>s. 2 * length s + 2 \<le> n \<longrightarrow> parse_members (n + k) s = parse_members n s)"
proof (induction n)
  case 0
  show ?case by simp
next
  case (Suc n)
  then have V: "\<And>s. 2 * length s + 1 \<le> n \<Longrightarrow> parse_value (n + k) s = parse_value n s"
    and E: "\<And>s. 2 * length s + 2 \<le> n \<Longrightarrow> parse_elements (n + k) s = parse_elements n s"
    and M: "\<And>s. 2 * length s + 2 \<le> n \<Longrightarrow> parse_members (n + k) s = parse_members n s"
    by blast+
  have v: "parse_value (Suc n + k) s = parse_value (Suc n) s"
    if b: "2 * length s + 1 \<le> Suc n" for s
  proof (cases "skip_ws s")
    case Nil
    then show ?thesis by (simp cong: if_cong split: list.splits)
  next
    case (Cons c r)
    then have "length r < length s" by (rule skip_ws_Cons)
    with b have "2 * length r + 2 \<le> n" by simp
    then have "parse_elements (n + k) r = parse_elements n r"
      and "parse_members (n + k) r = parse_members n r"
      by (simp_all add: E M)
    with Cons show ?thesis by (simp cong: if_cong split: list.splits)
  qed
  have e: "parse_elements (Suc n + k) s = parse_elements (Suc n) s"
    if b: "2 * length s + 2 \<le> Suc n" for s
  proof -
    from b have eq: "parse_value (n + k) s = parse_value n s" by (simp add: V)
    show ?thesis
    proof (cases "parse_value n s")
      case None
      with eq show ?thesis by (simp cong: if_cong split: list.splits)
    next
      case (Some vr)
      obtain x r where vr: "vr = (x, r)" by (cases vr)
      with Some have l: "length r < length s" by (simp add: parse_value_shorter)
      show ?thesis
      proof (cases "skip_ws r")
        case Nil
        with eq Some vr show ?thesis by (simp cong: if_cong split: list.splits)
      next
        case (Cons c r')
        then have "length r' < length r" by (rule skip_ws_Cons)
        with l b have "2 * length r' + 2 \<le> n" by simp
        then have "parse_elements (n + k) r' = parse_elements n r'" by (simp add: E)
        with eq Some vr Cons show ?thesis by (simp cong: if_cong split: list.splits)
      qed
    qed
  qed
  have m: "parse_members (Suc n + k) s = parse_members (Suc n) s"
    if b: "2 * length s + 2 \<le> Suc n" for s
  proof (cases "skip_ws s")
    case Nil
    then show ?thesis by (simp cong: if_cong split: list.splits)
  next
    case s1: (Cons q r)
    then have l0: "length r < length s" by (rule skip_ws_Cons)
    show ?thesis
    proof (cases "parse_chars r")
      case None
      with s1 show ?thesis by (simp cong: if_cong split: list.splits)
    next
      case (Some kr)
      obtain key r1 where kr: "kr = (key, r1)" by (cases kr)
      with Some have l1: "length r1 < length r" by (simp add: parse_chars_shorter)
      show ?thesis
      proof (cases "skip_ws r1")
        case Nil
        with s1 Some kr show ?thesis by (simp cong: if_cong split: list.splits)
      next
        case s2: (Cons c r2)
        then have l2: "length r2 < length r1" by (rule skip_ws_Cons)
        with l0 l1 b have "2 * length r2 + 1 \<le> n" by simp
        then have eq: "parse_value (n + k) r2 = parse_value n r2" by (simp add: V)
        show ?thesis
        proof (cases "parse_value n r2")
          case None
          with s1 Some kr s2 eq show ?thesis by (simp cong: if_cong split: list.splits)
        next
          case v: (Some vr)
          obtain x r3 where vr: "vr = (x, r3)" by (cases vr)
          with v have l3: "length r3 < length r2" by (simp add: parse_value_shorter)
          show ?thesis
          proof (cases "skip_ws r3")
            case Nil
            with s1 Some kr s2 eq v vr show ?thesis by (simp cong: if_cong split: list.splits)
          next
            case s3: (Cons d r4)
            then have "length r4 < length r3" by (rule skip_ws_Cons)
            with l0 l1 l2 l3 b have "2 * length r4 + 2 \<le> n" by simp
            then have "parse_members (n + k) r4 = parse_members n r4" by (simp add: M)
            with s1 Some kr s2 eq v vr s3 show ?thesis by (simp cong: if_cong split: list.splits)
          qed
        qed
      qed
    qed
  qed
  from v e m show ?case by blast
qed

lemma JSON_parse_fuel:
  assumes "2 * length s + 2 \<le> n"
  shows "JSON_parse s =
     (case parse_value n s of
        None \<Rightarrow> None
      | Some (v, r) \<Rightarrow> if skip_ws r = [] then Some v else None)"
proof -
  from assms obtain k where n: "n = (2 * length s + 2) + k"
    using le_Suc_ex by blast
  have "parse_value ((2 * length s + 2) + k) s = parse_value (2 * length s + 2) s"
    using fuel_enough_all [of "2 * length s + 2" k] by simp
  with n show ?thesis by (simp add: JSON_parse_def)
qed

section \<open>Properties of the stages\<close>

lemma and_then_Return:
  "and_then m f = Return r \<longleftrightarrow> m = Return r \<or> (\<exists>x. m = Continue x \<and> f x = Return r)"
  by (cases m) auto

text \<open>Every early return is an error response with status 400 or 500.\<close>

lemma check_text_Return:
  "check_text t = Return r \<Longrightarrow> status r = 400 \<and> (\<exists>e. body r = ErrorBody e None None)"
  by (auto simp: check_text_def Response_json_def split: option.splits json.splits if_splits)

lemma validated_text_Return:
  "validated_text req = Return r \<Longrightarrow> status r = 400 \<and> (\<exists>e. body r = ErrorBody e None None)"
  by (auto simp: validated_text_def and_then_Return request_json_def destructure_text_def
      dest: check_text_Return split: option.splits json.splits)

lemma check_apiKey_Return:
  "check_apiKey w = Return r \<Longrightarrow> status r = 500 \<and> (\<exists>e. body r = ErrorBody e None None)"
  by (auto simp: check_apiKey_def Response_json_def split: option.splits if_splits)

lemma before_fetch_Return:
  "before_fetch w req = Return r \<Longrightarrow>
   (status r = 400 \<or> status r = 500) \<and> (\<exists>e. body r = ErrorBody e None None)"
  by (auto simp: before_fetch_def and_then_Return
      dest: validated_text_Return check_apiKey_Return)

lemma read_provider_Return:
  "read_provider fr = Return r \<Longrightarrow> status r = 500 \<and> (\<exists>e d x. body r = ErrorBody e d x)"
  by (auto simp: read_provider_def Response_json_def
      split: fetch_result.splits option.splits if_splits)

lemma parse_content_Return:
  "parse_content nts c = Return r \<Longrightarrow> status r = 500 \<and> (\<exists>e d x. body r = ErrorBody e d x)"
  by (auto simp: parse_content_def Response_json_def split: option.splits json.splits)

lemma parsed_output_Return:
  "parsed_output w fr = Return r \<Longrightarrow> status r = 500 \<and> (\<exists>e d x. body r = ErrorBody e d x)"
  by (auto simp: parsed_output_def and_then_Return
      dest: read_provider_Return parse_content_Return)

lemma unexpected_eq:
  "unexpected e =
   \<lparr>status = 500, body = ErrorBody (js ''Unexpected server error'') (Some (Message e)) None\<rparr>"
  by (simp add: unexpected_def Response_json_def)

lemma respond_empty:
  "respond content [] =
   \<lparr>status = 500, body = ErrorBody (js ''No quizzes generated'') None (Some content)\<rparr>"
  by (simp add: respond_def Response_json_def)

lemma respond_nonempty:
  "qs \<noteq> [] \<Longrightarrow> respond content qs = \<lparr>status = 200, body = QuizzesBody (take 5 qs)\<rparr>"
  by (simp add: respond_def Response_json_def slice0_def)

text \<open>A run that reaches the normalization answers with \<open>respond\<close>; a run that does not
  answers with an error.\<close>

lemma POST_reached:
  "normalize_input w req = Some (content, parsed) \<Longrightarrow>
   fst (POST w req) = respond content (normalize_quizzes parsed)"
  by (auto simp: normalize_input_def POST_def after_fetch_def settle_def
      split: step.splits prod.splits)

lemma POST_not_reached:
  "normalize_input w req = None \<Longrightarrow>
   (status (fst (POST w req)) = 400 \<or> status (fst (POST w req)) = 500) \<and>
   (\<exists>e d x. body (fst (POST w req)) = ErrorBody e d x)"
  by (auto simp: normalize_input_def POST_def after_fetch_def settle_def unexpected_eq
      dest: before_fetch_Return parsed_output_Return
      split: step.splits prod.splits)

lemma POST_success:
  assumes "status (fst (POST w req)) = 200 \<or> body (fst (POST w req)) = QuizzesBody qs"
  shows "\<exists>content parsed. normalize_input w req = Some (content, parsed) \<and>
           normalize_quizzes parsed \<noteq> [] \<and>
           fst (POST w req) =
             \<lparr>status = 200, body = QuizzesBody (take 5 (normalize_quizzes parsed))\<rparr>"
proof (cases "normalize_input w req")
  case None
  from POST_not_reached [OF None] assms show ?thesis by auto
next
  case (Some cp)
  obtain content parsed where cp: "cp = (content, parsed)" by (cases cp)
  have r: "fst (POST w req) = respond content (normalize_quizzes parsed)"
    using Some cp by (simp add: POST_reached)
  have "normalize_quizzes parsed \<noteq> []"
  proof
    assume "normalize_quizzes parsed = []"
    with r assms show False by (auto simp: respond_empty)
  qed
  with r Some cp show ?thesis by (simp add: respond_nonempty)
qed

text \<open>The shape check of the handler on elements that have the two strings.\<close>

lemma has_prop_map_of:
  "map_of ms k = Some v \<Longrightarrow> has_prop k (JObject ms)"
  by (auto simp: has_prop_def dest!: map_of_SomeD intro: rev_image_eqI)

lemma candidate_well_formed:
  "well_formed_item x qa \<Longrightarrow> candidate x = Some qa"
  by (cases x) (auto simp: well_formed_item_def candidate_def is_object_def get_prop_def
      has_prop_map_of)

lemma map_filter_Boolean_Nil: "map_filter_Boolean [] = []"
  by (simp add: map_filter_Boolean_def)

lemma map_filter_Boolean_Cons:
  "map_filter_Boolean (x # xs) =
     (case candidate x of None \<Rightarrow> map_filter_Boolean xs | Some qa \<Rightarrow> qa # map_filter_Boolean xs)"
  by (simp add: map_filter_Boolean_def split: option.splits)

lemma map_filter_Boolean_well_formed:
  "list_all2 well_formed_item xs qas \<Longrightarrow> map_filter_Boolean xs = qas"
  by (induction rule: list_all2_induct)
     (simp_all add: map_filter_Boolean_Nil map_filter_Boolean_Cons candidate_well_formed)

lemma normalize_quizzes_Array:
  "normalize_quizzes (JArray xs) = map_filter_Boolean xs"
  by (simp add: normalize_quizzes_def)

lemma normalize_quizzes_wrapped:
  "get_prop parsed (js ''quizzes'') = Some (JArray xs) \<Longrightarrow>
   normalize_quizzes parsed = map_filter_Boolean xs"
  by (cases parsed) (auto simp: normalize_quizzes_def get_prop_def is_object_def has_prop_map_of)

text \<open>The way to the normalization.\<close>

lemma read_provider_ok:
  "ok res \<Longrightarrow> body_text res = Some b \<Longrightarrow> JSON_parse b = Some data \<Longrightarrow>
   read_provider (Resolves res) = Continue data"
  by (simp add: read_provider_def)

lemma strict_parse_string: "strict_parse nts (JString c) = JSON_parse c"
  by (simp add: strict_parse_def)

lemma parse_content_strict:
  "strict_parse nts content = Some parsed \<Longrightarrow> parse_content nts content = Continue parsed"
  by (simp add: parse_content_def)

lemma normalize_input_eq:
  "before_fetch w req = Continue (trimmed, key) \<Longrightarrow>
   read_provider (fetch w (chat_completions key trimmed)) = Continue data \<Longrightarrow>
   parse_content (Number_toString w) (extract_content data) = Continue parsed \<Longrightarrow>
   normalize_input w req = Some (extract_content data, parsed)"
  by (simp add: normalize_input_def parsed_output_def)

text \<open>The request \<open>hello\<close> in a world that answers with a completion.\<close>

lemma validated_text_hello: "validated_text hello = Continue (js ''hello world'')"
  by code_simp

lemma before_fetch_hello:
  "before_fetch (world_answering c) hello = Continue (js ''hello world'', js ''sk-test'')"
  by (simp add: before_fetch_def validated_text_hello check_apiKey_def apiKey_def env_or_def
      world_answering_def js_def)

text \<open>The text of a completion parses to its value, whatever the content.\<close>

lemma parse_chars_escape:
  "\<forall>x\<in>set c. 0x20 \<le> x \<Longrightarrow> parse_chars (escape_chars c @ 0x22 # rest) = Some (c, rest)"
proof (induction c)
  case Nil
  then show ?case by simp
next
  case (Cons x c)
  then have ih: "parse_chars (escape_chars c @ 0x22 # rest) = Some (c, rest)" by simp
  from Cons.prems have x: "\<not> x < 0x20" by (simp add: not_less)
  show ?case
    using ih x by (auto simp: simple_escape_def)
qed

lemma parse_value_completion:
  assumes "\<forall>x\<in>set c. 0x20 \<le> x"
  shows "parse_value (Suc (Suc (Suc (Suc (Suc (Suc (Suc (Suc (Suc (Suc m))))))))))
           (completion_text c) = Some (completion_data c, [])"
  unfolding completion_text_def quoted_def completion_data_def
  by (simp add: js_def skip_ws_def is_json_space_def parse_chars_escape [OF assms]
      make_object_def parse_scalar_def)

lemma JSON_parse_completion:
  assumes "printable c"
  shows "JSON_parse (completion_text c) = Some (completion_data c)"
proof -
  from assms have c: "\<forall>x\<in>set c. 0x20 \<le> x"
    by (simp add: printable_def list_all_iff)
  have "10 \<le> 2 * length (completion_text c) + 2"
    by (simp add: completion_text_def js_def)
  then obtain m where "2 * length (completion_text c) + 2 = 10 + m"
    using le_Suc_ex by blast
  then have "2 * length (completion_text c) + 2 =
      Suc (Suc (Suc (Suc (Suc (Suc (Suc (Suc (Suc (Suc m)))))))))"
    by simp
  then show ?thesis
    by (simp only: JSON_parse_def parse_value_completion [OF c])
       (simp add: skip_ws_def)
qed

lemma extract_content_completion: "extract_content (completion_data c) = JString c"
  by (simp add: extract_content_def message_of_def completion_data_def opt_prop_def
      opt_index0_def index0_def get_prop_def coalesce_def js_def)

lemma fetch_world_answering: "fetch (world_answering c) fr = Resolves (completion c)"
  by (simp add: world_answering_def)

lemma read_provider_completion:
  "printable c \<Longrightarrow> read_provider (fetch (world_answering c) fr) = Continue (completion_data c)"
  by (simp add: fetch_world_answering read_provider_def completion_def JSON_parse_completion)

lemma Number_toString_world_answering: "Number_toString (world_answering c) = (\<lambda>n. n)"
  by (simp add: world_answering_def)

lemma normalize_input_world_answering:
  "printable c \<Longrightarrow> JSON_parse c = Some parsed \<Longrightarrow>
   normalize_input (world_answering c) hello = Some (JString c, parsed)"
proof -
  assume p: "printable c" and j: "JSON_parse c = Some parsed"
  have r: "read_provider (fetch (world_answering c)
             (chat_completions (js ''sk-test'') (js ''hello world''))) =
           Continue (completion_data c)"
    using p by (rule read_provider_completion)
  have "parse_content (Number_toString (world_answering c))
          (extract_content (completion_data c)) = Continue parsed"
    using j by (simp add: extract_content_completion parse_content_strict strict_parse_string)
  with before_fetch_hello r
  have "normalize_input (world_answering c) hello =
        Some (extract_content (completion_data c), parsed)"
    by (rule normalize_input_eq)
  then show ?thesis by (simp add: extract_content_completion)
qed

lemma POST_world_answering:
  "printable c \<Longrightarrow>
   fst (POST (world_answering c) hello) =
     (case parse_content (\<lambda>n. n) (JString c) of
        Continue parsed \<Rightarrow> respond (JString c) (normalize_quizzes parsed)
      | Return r \<Rightarrow> r
      | Throw e \<Rightarrow> unexpected e)"
  by (simp add: POST_def before_fetch_hello after_fetch_def parsed_output_def settle_def
      read_provider_completion extract_content_completion Number_toString_world_answering
      split: step.splits)

text \<open>The handler's shape check is the specification's.\<close>

lemma key_of_map_of: "map_of ms k = Some v \<Longrightarrow> k \<in> fst ` set ms"
  by (auto dest!: map_of_SomeD intro: rev_image_eqI)

lemma candidate_spec:
  "candidate x = (if shape_ok x then Some (item_of x) else None)"
  by (cases x)
     (auto simp: candidate_def shape_ok_def item_of_def string_prop_def is_object_def
        has_prop_def get_prop_def key_of_map_of
        split: option.splits json.splits)

lemma map_filter_Boolean_spec: "map_filter_Boolean xs = spec_filter xs"
  by (induction xs)
     (simp_all add: map_filter_Boolean_Nil map_filter_Boolean_Cons candidate_spec spec_filter_def)

lemma normalize_quizzes_nonempty:
  assumes "normalize_quizzes parsed \<noteq> []"
  shows "\<exists>xs. (parsed = JArray xs \<or> get_prop parsed (js ''quizzes'') = Some (JArray xs)) \<and>
           normalize_quizzes parsed = spec_filter xs"
  using assms
  by (cases parsed)
     (auto simp: normalize_quizzes_def map_filter_Boolean_spec get_prop_def
        split: option.splits json.splits if_splits)

lemma shape_ok_props:
  "shape_ok x \<Longrightarrow>
   get_prop x (js ''question'') = Some (JString (question (item_of x))) \<and>
   get_prop x (js ''answer'') = Some (JString (answer (item_of x)))"
  by (cases x)
     (auto simp: shape_ok_def item_of_def string_prop_def get_prop_def
        split: option.splits json.splits)

text \<open>The match of the pattern runs from the first \<open>[\<close> to the last \<open>]\<close>.\<close>

lemma regex_match_span:
  assumes "regex_match s = Some m"
  shows "\<exists>pre post. s = pre @ m @ post \<and> 0x5B \<notin> set pre \<and> 0x5D \<notin> set post \<and>
           hd m = 0x5B \<and> last m = 0x5D"
proof -
  from assms obtain b rest where d: "dropWhile (\<lambda>c. c \<noteq> 0x5B) s = b # rest"
    and r: "0x5D \<in> set rest"
    and m: "m = b # rev (dropWhile (\<lambda>c. c \<noteq> 0x5D) (rev rest))"
    by (auto simp: regex_match_def split: list.splits if_splits)
  let ?pre = "takeWhile (\<lambda>c. c \<noteq> 0x5B) s"
  let ?post = "rev (takeWhile (\<lambda>c. c \<noteq> 0x5D) (rev rest))"
  from d have b: "b = 0x5B" and s: "s = ?pre @ b # rest"
    by (auto simp: dropWhile_eq_Cons_conv)
  have rest: "rest = rev (dropWhile (\<lambda>c. c \<noteq> 0x5D) (rev rest)) @ ?post"
    by (metis rev_append rev_rev_ident takeWhile_dropWhile_id)
  have pre: "0x5B \<notin> set ?pre"
    by (auto dest: set_takeWhileD)
  have post: "0x5D \<notin> set ?post"
    by (auto dest: set_takeWhileD)
  from r have ne: "dropWhile (\<lambda>c. c \<noteq> 0x5D) (rev rest) \<noteq> []"
    by auto
  then have "hd (dropWhile (\<lambda>c. c \<noteq> 0x5D) (rev rest)) = 0x5D"
    using hd_dropWhile [of "\<lambda>c. c \<noteq> 0x5D" "rev rest"] by simp
  moreover have "last m = hd (dropWhile (\<lambda>c. c \<noteq> 0x5D) (rev rest))"
    unfolding m using ne by (simp only: last_ConsR rev_is_Nil_conv last_rev not_False_eq_True)
  ultimately have l: "last m = 0x5D" by simp
  have "s = ?pre @ m @ ?post"
    using s rest by (simp add: m)
  with pre post l b m show ?thesis by (metis list.sel(1))
qed

lemma parse_content_fallback:
  "JSON_parse c = None \<Longrightarrow> regex_match c = Some m \<Longrightarrow> JSON_parse m = Some parsed \<Longrightarrow>
   parse_content nts (JString c) = Continue parsed"
  by (simp add: parse_content_def strict_parse_string)

text \<open>The validation decides alone whether the status is 400.\<close>

lemma validated_text_eq:
  "validated_text req =
     (case JSON_parse (request_body req) of
        None \<Rightarrow> Throw SyntaxError
      | Some v \<Rightarrow> (case v of JNull \<Rightarrow> Throw TypeError | _ \<Rightarrow> check_text (get_prop v (js ''text''))))"
  by (simp add: validated_text_def request_json_def destructure_text_def
      split: option.splits json.splits)

lemma POST_validation_Return:
  "validated_text req = Return r \<Longrightarrow> POST w req = (r, [])"
  by (simp add: POST_def before_fetch_def)

lemma POST_validation_Throw:
  "validated_text req = Throw e \<Longrightarrow> POST w req = (unexpected e, [])"
  by (simp add: POST_def before_fetch_def)

lemma settle_after_fetch_status:
  "status (settle (after_fetch w fr)) = 200 \<or> status (settle (after_fetch w fr)) = 500"
  by (cases "parsed_output w fr")
     (auto simp: after_fetch_def settle_def unexpected_eq respond_def Response_json_def
        dest: parsed_output_Return split: prod.splits)

lemma POST_status_400:
  assumes "status (fst (POST w req)) = 400"
  shows "validated_text req = Return (fst (POST w req))"
proof (cases "validated_text req")
  case (Continue trimmed)
  show ?thesis
  proof (cases "check_apiKey w")
    case (Continue key)
    with \<open>validated_text req = Continue trimmed\<close> assms
      settle_after_fetch_status [of w "fetch w (chat_completions key trimmed)"]
    show ?thesis by (simp add: POST_def before_fetch_def)
  next
    case (Return r)
    with \<open>validated_text req = Continue trimmed\<close> assms check_apiKey_Return [of w r]
    show ?thesis by (simp add: POST_def before_fetch_def)
  next
    case (Throw e)
    then show ?thesis by (simp add: check_apiKey_def split: option.splits if_splits)
  qed
next
  case (Return r)
  then show ?thesis by (simp add: POST_validation_Return)
next
  case (Throw e)
  with assms show ?thesis by (simp add: POST_validation_Throw unexpected_eq)
qed

lemma text_errors_differ: "js ''text is required'' \<noteq> js ''text must not be empty''"
  by (simp add: js_def)

lemma check_text_required:
  "check_text t = Return \<lparr>status = 400, body = ErrorBody (js ''text is required'') None None\<rparr>
   \<longleftrightarrow> (\<forall>s. t = Some (JString s) \<longrightarrow> s = [])"
  using text_errors_differ
  by (auto simp: check_text_def Response_json_def split: option.splits json.splits)

lemma check_text_empty:
  "check_text t =
     Return \<lparr>status = 400, body = ErrorBody (js ''text must not be empty'') None None\<rparr>
   \<longleftrightarrow> (\<exists>s. t = Some (JString s) \<and> s \<noteq> [] \<and> trim_slice s 1000 = [])"
  using text_errors_differ
  by (auto simp: check_text_def Response_json_def split: option.splits json.splits)

lemma POST_400_iff:
  "status r = 400 \<Longrightarrow> fst (POST w req) = r \<longleftrightarrow> validated_text req = Return r"
  using POST_status_400 [of w req] by (auto simp: POST_validation_Return)

lemma check_apiKey_unset:
  "unset (NEXT_PUBLIC_OPENAI_API_KEY w) \<Longrightarrow> unset (OPENAI_API_KEY w) \<Longrightarrow>
   check_apiKey w =
     Return \<lparr>status = 500,
       body = ErrorBody
         (js ''Missing OpenAI API key in environment (set NEXT_PUBLIC_OPENAI_API_KEY or OPENAI_API_KEY)'')
         None None\<rparr>"
  by (auto simp: unset_def check_apiKey_def apiKey_def env_or_def Response_json_def)

text \<open>Trimming and truncating.\<close>

lemma trim_Nil: "trim [] = []"
  by (simp add: trim_def)

lemma length_trim_le: "length (trim s) \<le> length s"
proof -
  have "length (trim s) \<le> length (dropWhile is_trim_space s)"
    unfolding trim_def using length_dropWhile_le [of is_trim_space "rev (dropWhile is_trim_space s)"]
    by simp
  also have "\<dots> \<le> length s" by (rule length_dropWhile_le)
  finally show ?thesis .
qed

lemma trim_front:
  "s \<noteq> [] \<Longrightarrow> \<not> is_trim_space (hd s) \<Longrightarrow> trim s = rev (dropWhile is_trim_space (rev s))"
  by (cases s) (simp_all add: trim_def)

lemma trim_id:
  "s \<noteq> [] \<Longrightarrow> \<not> is_trim_space (hd s) \<Longrightarrow> \<not> is_trim_space (last s) \<Longrightarrow> trim s = s"
proof -
  assume a: "s \<noteq> []" "\<not> is_trim_space (hd s)" "\<not> is_trim_space (last s)"
  then have "dropWhile is_trim_space (rev s) = rev s"
    by (simp add: dropWhile_eq_self_iff hd_rev)
  with a show ?thesis by (simp add: trim_front)
qed

lemma trim_ends:
  assumes "trim s \<noteq> []"
  shows "\<not> is_trim_space (hd (trim s)) \<and> \<not> is_trim_space (last (trim s))"
proof -
  let ?t = "dropWhile is_trim_space s"
  let ?u = "dropWhile is_trim_space (rev ?t)"
  have "trim s = []" if e: "?t = []"
  proof -
    have "trim s = rev (dropWhile is_trim_space (rev ?t))" by (simp only: trim_def)
    also have "\<dots> = []" by (simp only: e rev.simps dropWhile.simps)
    finally show ?thesis .
  qed
  with assms have t: "?t \<noteq> []" by blast
  then have ht: "\<not> is_trim_space (hd ?t)" by (rule hd_dropWhile)
  from assms have u: "?u \<noteq> []" by (simp add: trim_def)
  then have hu: "\<not> is_trim_space (hd ?u)" by (rule hd_dropWhile)
  have "hd ?t \<in> set (rev ?t)" using t by simp
  then have "last ?u = last (rev ?t)" using ht by (rule dropWhile_last)
  then have "last ?u = hd ?t" using t by (simp add: last_rev)
  then have "hd (trim s) = hd ?t" using u by (simp add: trim_def hd_rev)
  moreover have "last (trim s) = hd ?u" using u by (simp add: trim_def last_rev)
  ultimately show ?thesis using ht hu by simp
qed

lemma trim_trim: "trim (trim s) = trim s"
proof (cases "trim s = []")
  case True
  then show ?thesis by (simp add: trim_Nil)
next
  case False
  then show ?thesis using trim_ends [of s] by (simp add: trim_id)
qed

lemma trim_prefix:
  "s \<noteq> [] \<Longrightarrow> \<not> is_trim_space (hd s) \<Longrightarrow> \<exists>r. s = trim s @ r"
proof -
  assume a: "s \<noteq> []" "\<not> is_trim_space (hd s)"
  have "rev s = takeWhile is_trim_space (rev s) @ dropWhile is_trim_space (rev s)"
    by simp
  then have "s = rev (dropWhile is_trim_space (rev s)) @ rev (takeWhile is_trim_space (rev s))"
    by (metis rev_append rev_rev_ident)
  with a show ?thesis by (auto simp: trim_front)
qed

lemma trim_slice_eq: "trim_slice s n = take n (trim s)"
  by (simp add: trim_slice_def slice0_def)

lemma trim_slice_again: "trim_slice (trim_slice s n) n = trim (trim_slice s n)"
proof -
  have "length (trim (trim_slice s n)) \<le> length (trim_slice s n)" by (rule length_trim_le)
  also have "\<dots> \<le> n" by (simp add: trim_slice_eq)
  finally show ?thesis by (simp add: trim_slice_eq [of "trim_slice s n"])
qed

lemma trim_slice_short:
  "length (trim s) \<le> n \<Longrightarrow> trim_slice (trim_slice s n) n = trim_slice s n"
  by (simp add: trim_slice_again) (simp add: trim_slice_eq trim_trim)

lemma trim_slice_no_space_at_end:
  assumes "\<not> is_trim_space (last (trim_slice s n))"
  shows "trim_slice (trim_slice s n) n = trim_slice s n"
proof (cases "trim_slice s n = []")
  case True
  have "trim_slice (trim_slice s n) n = trim (trim_slice s n)" by (rule trim_slice_again)
  also have "\<dots> = []" by (simp only: True trim_Nil)
  finally show ?thesis by (simp only: True)
next
  case False
  then have "trim s \<noteq> []" and "0 < n" by (auto simp: trim_slice_eq)
  then have "hd (trim_slice s n) = hd (trim s)" by (simp add: trim_slice_eq)
  with \<open>trim s \<noteq> []\<close> have "\<not> is_trim_space (hd (trim_slice s n))"
    using trim_ends [of s] by simp
  with False assms show ?thesis by (simp add: trim_slice_again trim_id)
qed

lemma trim_slice_prefix:
  assumes "\<not> is_trim_space (hd s)" and "n \<le> length (trim s)"
  shows "trim_slice s n = take n s"
proof (cases "s = []")
  case True
  then show ?thesis by (simp add: trim_slice_eq trim_Nil)
next
  case False
  with assms(1) obtain r where "s = trim s @ r" using trim_prefix by blast
  then have "take n s = take n (trim s @ r)" by simp
  also have "\<dots> = take n (trim s)" using assms(2) by simp
  finally show ?thesis by (simp add: trim_slice_eq)
qed

lemma letters_and_space:
  "\<not> is_trim_space 0x61" "\<not> is_trim_space 0x62" "is_trim_space 0x20"
  by (simp_all add: is_trim_space_def)

lemma trim_space_at_1000: "trim space_at_1000 = space_at_1000"
  by (rule trim_id) (simp_all add: space_at_1000_def letters_and_space hd_append)

lemma trim_slice_space_at_1000: "trim_slice space_at_1000 1000 = replicate 999 0x61 @ [0x20]"
  by (simp add: trim_slice_eq trim_space_at_1000) (simp add: space_at_1000_def)

lemma trim_letters_space: "trim (replicate 999 0x61 @ [0x20]) = replicate 999 0x61"
proof -
  have "trim (replicate 999 0x61 @ [0x20]) =
        rev (dropWhile is_trim_space (rev (replicate 999 0x61 @ [0x20])))"
    by (rule trim_front) (simp_all add: hd_append letters_and_space)
  also have "\<dots> = rev (dropWhile is_trim_space (replicate 999 0x61))"
    by (simp add: letters_and_space)
  also have "\<dots> = replicate 999 0x61"
    by (simp add: dropWhile_eq_self_iff letters_and_space)
  finally show ?thesis .
qed

lemma trim_space_first: "trim space_first = replicate 1001 0x61"
proof -
  have "trim space_first = trim (replicate 1001 0x61)"
    by (simp add: trim_def space_first_def letters_and_space)
  also have "\<dots> = replicate 1001 0x61"
    by (rule trim_id) (simp_all add: letters_and_space)
  finally show ?thesis .
qed

lemma trim_slice_space_first: "trim_slice space_first 1000 = replicate 1000 0x61"
  by (simp add: trim_slice_eq trim_space_first)

section \<open>The claims\<close>

text \<open>
  C1. The endpoint never returns a success (200) response whose quizzes array has more
  than 5 items or zero items. A response with status 200 carries between 1 and 5 quizzes,
  and a response that carries quizzes has status 200 and between 1 and 5 of them. When the
  normalization yields more than 5 valid items the response is the success with exactly
  the first 5; when it yields none, the response is the 500 error
  \<open>No quizzes generated\<close> with the raw content.
\<close>

theorem quizzes_between_1_and_5:
  "(status (fst (POST w req)) = 200 \<longrightarrow>
      (\<exists>qs. body (fst (POST w req)) = QuizzesBody qs \<and> 1 \<le> length qs \<and> length qs \<le> 5)) \<and>
   (\<forall>qs. body (fst (POST w req)) = QuizzesBody qs \<longrightarrow>
      status (fst (POST w req)) = 200 \<and> 1 \<le> length qs \<and> length qs \<le> 5) \<and>
   (normalize_input w req = Some (content, parsed) \<and> 5 < length (normalize_quizzes parsed) \<longrightarrow>
      fst (POST w req) =
        \<lparr>status = 200, body = QuizzesBody (take 5 (normalize_quizzes parsed))\<rparr> \<and>
      length (take 5 (normalize_quizzes parsed)) = 5) \<and>
   (normalize_input w req = Some (content, parsed) \<and> normalize_quizzes parsed = [] \<longrightarrow>
      fst (POST w req) =
        \<lparr>status = 500, body = ErrorBody (js ''No quizzes generated'') None (Some content)\<rparr>)"
proof -
  have success: "\<exists>p. normalize_quizzes p \<noteq> [] \<and>
      fst (POST w req) = \<lparr>status = 200, body = QuizzesBody (take 5 (normalize_quizzes p))\<rparr>"
    if "status (fst (POST w req)) = 200 \<or> body (fst (POST w req)) = QuizzesBody qs" for qs
    using POST_success [OF that] by blast
  have bounds: "1 \<le> length (take 5 xs) \<and> length (take 5 xs) \<le> 5" if "xs \<noteq> []" for xs :: "QA list"
    using that by (cases xs) auto
  have p1: "\<exists>qs. body (fst (POST w req)) = QuizzesBody qs \<and> 1 \<le> length qs \<and> length qs \<le> 5"
    if "status (fst (POST w req)) = 200"
  proof -
    from success [of "[]"] that obtain p where "normalize_quizzes p \<noteq> []"
      and "fst (POST w req) = \<lparr>status = 200, body = QuizzesBody (take 5 (normalize_quizzes p))\<rparr>"
      by blast
    then show ?thesis using bounds [of "normalize_quizzes p"] by simp
  qed
  have p2: "status (fst (POST w req)) = 200 \<and> 1 \<le> length qs \<and> length qs \<le> 5"
    if "body (fst (POST w req)) = QuizzesBody qs" for qs
  proof -
    from success [of qs] that obtain p where "normalize_quizzes p \<noteq> []"
      and "fst (POST w req) = \<lparr>status = 200, body = QuizzesBody (take 5 (normalize_quizzes p))\<rparr>"
      by blast
    with that have "qs = take 5 (normalize_quizzes p)" and "status (fst (POST w req)) = 200"
      by simp_all
    then show ?thesis using bounds [of "normalize_quizzes p"] \<open>normalize_quizzes p \<noteq> []\<close>
      by blast
  qed
  have p3: "fst (POST w req) =
        \<lparr>status = 200, body = QuizzesBody (take 5 (normalize_quizzes parsed))\<rparr> \<and>
      length (take 5 (normalize_quizzes parsed)) = 5"
    if "normalize_input w req = Some (content, parsed) \<and> 5 < length (normalize_quizzes parsed)"
  proof -
    from that have "normalize_quizzes parsed \<noteq> []" by auto
    with that show ?thesis by (simp add: POST_reached respond_nonempty)
  qed
  have p4: "fst (POST w req) =
      \<lparr>status = 500, body = ErrorBody (js ''No quizzes generated'') None (Some content)\<rparr>"
    if "normalize_input w req = Some (content, parsed) \<and> normalize_quizzes parsed = []"
    using that by (simp add: POST_reached respond_empty)
  from p1 p2 p3 p4 show ?thesis by blast
qed

theorem quizzes_between_1_and_5_witness:
  "fst (POST (world_answering six_quizzes) hello) =
     \<lparr>status = 200, body = QuizzesBody five_answers\<rparr> \<and>
   length (normalize_quizzes (JArray six_items)) = 6 \<and>
   fst (POST (world_answering no_quizzes) hello) =
     \<lparr>status = 500,
      body = ErrorBody (js ''No quizzes generated'') None (Some (JString no_quizzes))\<rparr>"
proof -
  have "printable six_quizzes" by code_simp
  moreover have "JSON_parse six_quizzes = Some (JArray six_items)" by code_simp
  ultimately have a: "normalize_input (world_answering six_quizzes) hello =
      Some (JString six_quizzes, JArray six_items)"
    by (rule normalize_input_world_answering)
  have b: "normalize_quizzes (JArray six_items) = five_answers @ [item ''Q6'' ''A6'']"
    by code_simp
  have "printable no_quizzes" by code_simp
  moreover have "JSON_parse no_quizzes = Some (JArray no_items)" by code_simp
  ultimately have c: "normalize_input (world_answering no_quizzes) hello =
      Some (JString no_quizzes, JArray no_items)"
    by (rule normalize_input_world_answering)
  have d: "normalize_quizzes (JArray no_items) = []"
    by code_simp
  have l: "length five_answers = 5" by (simp add: five_answers_def)
  from quizzes_between_1_and_5
    [of "world_answering six_quizzes" hello "JString six_quizzes" "JArray six_items"] a b l
  have "fst (POST (world_answering six_quizzes) hello) =
     \<lparr>status = 200, body = QuizzesBody (take 5 (five_answers @ [item ''Q6'' ''A6'']))\<rparr>"
    by simp
  moreover from quizzes_between_1_and_5
    [of "world_answering no_quizzes" hello "JString no_quizzes" "JArray no_items"] c d
  have "fst (POST (world_answering no_quizzes) hello) =
     \<lparr>status = 500,
      body = ErrorBody (js ''No quizzes generated'') None (Some (JString no_quizzes))\<rparr>"
    by simp
  ultimately show ?thesis using b l by simp
qed

text \<open>
  C2. Round trip: when the request passes validation, a key is present, the provider
  answers with success and the extracted content is a string holding the JSON object
  \<open>{"quizzes": [...]}\<close> with five objects, each with string-valued \<open>question\<close> and
  \<open>answer\<close>, the endpoint returns status 200 with exactly these five pairs, unchanged
  and in the same order.
\<close>

theorem round_trip_five_items:
  assumes "before_fetch w req = Continue (trimmed, key)"
    and "fetch w (chat_completions key trimmed) = Resolves res"
    and "ok res" and "body_text res = Some b" and "JSON_parse b = Some data"
    and "extract_content data = JString c"
    and "JSON_parse c = Some (JObject ms)"
    and "map_of ms (js ''quizzes'') = Some (JArray xs)"
    and "length xs = 5"
    and "list_all2 well_formed_item xs qas"
  shows "fst (POST w req) = \<lparr>status = 200, body = QuizzesBody qas\<rparr>"
proof -
  have "read_provider (fetch w (chat_completions key trimmed)) = Continue data"
    using assms(2-5) by (simp add: read_provider_ok)
  moreover have "parse_content (Number_toString w) (extract_content data) = Continue (JObject ms)"
    using assms(6,7) by (simp add: parse_content_strict strict_parse_string)
  ultimately have "normalize_input w req = Some (extract_content data, JObject ms)"
    using assms(1) by (rule normalize_input_eq [rotated])
  then have r: "fst (POST w req) = respond (extract_content data) (normalize_quizzes (JObject ms))"
    by (rule POST_reached)
  have n: "normalize_quizzes (JObject ms) = qas"
    using assms(8,10)
    by (simp add: normalize_quizzes_wrapped get_prop_def map_filter_Boolean_well_formed)
  have "length qas = 5"
    using assms(9,10) by (simp add: list_all2_lengthD [symmetric])
  then have "qas \<noteq> []" and "take 5 qas = qas" by auto
  with r n show ?thesis by (simp add: respond_nonempty)
qed

theorem round_trip_five_items_witness:
  "fst (POST (world_answering five_quizzes) hello) =
     \<lparr>status = 200, body = QuizzesBody five_answers\<rparr>"
proof -
  have p: "printable five_quizzes" by code_simp
  have 2: "fetch (world_answering five_quizzes)
             (chat_completions (js ''sk-test'') (js ''hello world'')) =
           Resolves (completion five_quizzes)"
    by (rule fetch_world_answering)
  have 3: "ok (completion five_quizzes)" by (simp add: completion_def)
  have 4: "body_text (completion five_quizzes) = Some (completion_text five_quizzes)"
    by (simp add: completion_def)
  have 5: "JSON_parse (completion_text five_quizzes) = Some (completion_data five_quizzes)"
    using p by (rule JSON_parse_completion)
  have 6: "extract_content (completion_data five_quizzes) = JString five_quizzes"
    by (rule extract_content_completion)
  have 7: "JSON_parse five_quizzes = Some (JObject [(js ''quizzes'', JArray five_items)])"
    by code_simp
  have 8: "map_of [(js ''quizzes'', JArray five_items)] (js ''quizzes'') =
           Some (JArray five_items)"
    by simp
  have 9: "length five_items = 5" by (simp add: five_items_def)
  have 10: "list_all2 well_formed_item five_items five_answers"
    by code_simp
  show ?thesis
    by (rule round_trip_five_items [OF before_fetch_hello 2 3 4 5 6 7 8 9 10])
qed

text \<open>
  C10. When the strict parse of the provider content succeeds but the parsed value is
  neither an array nor an object with an array-valued \<open>quizzes\<close> property, the endpoint
  returns the 500 error \<open>No quizzes generated\<close> with the raw content attached.
\<close>

theorem not_a_quiz_list:
  assumes "before_fetch w req = Continue (trimmed, key)"
    and "read_provider (fetch w (chat_completions key trimmed)) = Continue data"
    and "strict_parse (Number_toString w) (extract_content data) = Some parsed"
    and "\<not> isArray parsed"
    and "\<forall>q. get_prop parsed (js ''quizzes'') = Some q \<longrightarrow> \<not> isArray q"
  shows "fst (POST w req) =
     \<lparr>status = 500,
      body = ErrorBody (js ''No quizzes generated'') None (Some (extract_content data))\<rparr>"
proof -
  have "normalize_input w req = Some (extract_content data, parsed)"
    using assms(1-3) by (simp add: normalize_input_eq parse_content_strict)
  then have "fst (POST w req) = respond (extract_content data) (normalize_quizzes parsed)"
    by (rule POST_reached)
  moreover have "normalize_quizzes parsed = []"
    using assms(4,5)
    by (cases parsed) (auto simp: normalize_quizzes_def isArray_def get_prop_def
        split: option.splits json.splits)
  ultimately show ?thesis by (simp add: respond_empty)
qed

theorem not_a_quiz_list_witness:
  "fst (POST (world_answering not_a_list) hello) =
     \<lparr>status = 500,
      body = ErrorBody (js ''No quizzes generated'') None (Some (JString not_a_list))\<rparr>"
proof -
  have p: "printable not_a_list" by code_simp
  have j: "JSON_parse not_a_list = Some (JObject [(js ''quizzes'', JString (js ''none''))])"
    by code_simp
  have 3: "strict_parse (Number_toString (world_answering not_a_list))
             (extract_content (completion_data not_a_list)) =
           Some (JObject [(js ''quizzes'', JString (js ''none''))])"
    by (simp add: extract_content_completion strict_parse_string j)
  have 4: "\<not> isArray (JObject [(js ''quizzes'', JString (js ''none''))])"
    by (simp add: isArray_def)
  have 5: "\<forall>q. get_prop (JObject [(js ''quizzes'', JString (js ''none''))]) (js ''quizzes'') = Some q
             \<longrightarrow> \<not> isArray q"
    by (simp add: get_prop_def isArray_def)
  from not_a_quiz_list [OF before_fetch_hello read_provider_completion [OF p] 3 4 5]
  show ?thesis by (simp add: extract_content_completion)
qed

text \<open>
  C6. Shape filtering: the handler's normalization of a candidate list, bare or under
  \<open>quizzes\<close>, is the specification's filter: an element that is not an object with both
  \<open>question\<close> and \<open>answer\<close> as strings is dropped, every element that passes the check
  is kept, in the original order. A dropped element causes no error: when at least one
  element passes, the response is the success with the first five kept items.
\<close>

theorem shape_filtering:
  "normalize_quizzes (JArray xs) = spec_filter xs \<and>
   (get_prop parsed (js ''quizzes'') = Some (JArray xs) \<longrightarrow>
      normalize_quizzes parsed = spec_filter xs) \<and>
   (\<not> shape_ok x \<longrightarrow> spec_filter (ys @ x # zs) = spec_filter ys @ spec_filter zs) \<and>
   (shape_ok x \<longrightarrow> spec_filter (ys @ x # zs) = spec_filter ys @ item_of x # spec_filter zs) \<and>
   (normalize_input w req = Some (content, JArray xs) \<and> (\<exists>x\<in>set xs. shape_ok x) \<longrightarrow>
      fst (POST w req) = \<lparr>status = 200, body = QuizzesBody (take 5 (spec_filter xs))\<rparr>)"
proof -
  have a: "normalize_quizzes (JArray xs) = spec_filter xs"
    by (simp add: normalize_quizzes_Array map_filter_Boolean_spec)
  have b: "normalize_quizzes parsed = spec_filter xs"
    if "get_prop parsed (js ''quizzes'') = Some (JArray xs)"
    using that by (simp add: normalize_quizzes_wrapped map_filter_Boolean_spec)
  have c: "spec_filter (ys @ x # zs) = spec_filter ys @ spec_filter zs" if "\<not> shape_ok x"
    using that by (simp add: spec_filter_def)
  have d: "spec_filter (ys @ x # zs) = spec_filter ys @ item_of x # spec_filter zs" if "shape_ok x"
    using that by (simp add: spec_filter_def)
  have e: "fst (POST w req) = \<lparr>status = 200, body = QuizzesBody (take 5 (spec_filter xs))\<rparr>"
    if "normalize_input w req = Some (content, JArray xs) \<and> (\<exists>x\<in>set xs. shape_ok x)"
  proof -
    from that have "spec_filter xs \<noteq> []"
      by (auto simp: spec_filter_def filter_empty_conv)
    with that a show ?thesis by (simp add: POST_reached respond_nonempty)
  qed
  from a b c d e show ?thesis by blast
qed

theorem shape_filtering_witness:
  "spec_filter mixed_items = [item ''Q1'' ''A1'', item ''Q5'' ''A5''] \<and>
   normalize_quizzes (JObject [(js ''quizzes'', JArray mixed_items)]) =
     [item ''Q1'' ''A1'', item ''Q5'' ''A5''] \<and>
   fst (POST (world_answering mixed_quizzes) hello) =
     \<lparr>status = 200, body = QuizzesBody [item ''Q1'' ''A1'', item ''Q5'' ''A5'']\<rparr>"
proof -
  have "printable mixed_quizzes" by code_simp
  moreover have "JSON_parse mixed_quizzes = Some (JArray mixed_items)" by code_simp
  ultimately have n: "normalize_input (world_answering mixed_quizzes) hello =
      Some (JString mixed_quizzes, JArray mixed_items)"
    by (rule normalize_input_world_answering)
  have v: "\<exists>x\<in>set mixed_items. shape_ok x"
    by code_simp
  have f: "spec_filter mixed_items = [item ''Q1'' ''A1'', item ''Q5'' ''A5'']"
    by code_simp
  have g: "get_prop (JObject [(js ''quizzes'', JArray mixed_items)]) (js ''quizzes'') =
           Some (JArray mixed_items)"
    by (simp add: get_prop_def)
  from shape_filtering
    [of mixed_items "JObject [(js ''quizzes'', JArray mixed_items)]" "JString (js ''Q4'')" "[]" "[]"
        "world_answering mixed_quizzes" hello "JString mixed_quizzes"]
    n v f g
  show ?thesis by simp
qed

text \<open>
  C3. The claim asks for the 500 error \<open>Failed to parse model output\<close> with the raw
  content whenever both parse attempts fail. On a content that is not JSON and whose
  bracketed substring is not JSON either, the second \<open>JSON.parse\<close> throws inside the
  \<open>catch\<close> block and the handler answers \<open>Unexpected server error\<close>, without the raw
  content. On a content that is not JSON and has no bracketed substring, the handler
  answers as the claim says.
\<close>

theorem fallback_parse_throws:
  "JSON_parse bracket_prose = None \<and>
   regex_match bracket_prose = Some (js ''[no text given]'') \<and>
   JSON_parse (js ''[no text given]'') = None \<and>
   fst (POST (world_answering bracket_prose) hello) =
     \<lparr>status = 500,
      body = ErrorBody (js ''Unexpected server error'') (Some (Message SyntaxError)) None\<rparr> \<and>
   JSON_parse plain_prose = None \<and>
   regex_match plain_prose = None \<and>
   fst (POST (world_answering plain_prose) hello) =
     \<lparr>status = 500,
      body = ErrorBody (js ''Failed to parse model output'') None (Some (JString plain_prose))\<rparr>"
proof -
  have p: "printable bracket_prose" by code_simp
  have a: "JSON_parse bracket_prose = None" by code_simp
  have b: "regex_match bracket_prose = Some (js ''[no text given]'')" by code_simp
  have c: "JSON_parse (js ''[no text given]'') = None" by code_simp
  have "parse_content (\<lambda>n. n) (JString bracket_prose) = Throw SyntaxError"
    by (simp add: parse_content_def strict_parse_string a b c)
  then have r: "fst (POST (world_answering bracket_prose) hello) =
     \<lparr>status = 500,
      body = ErrorBody (js ''Unexpected server error'') (Some (Message SyntaxError)) None\<rparr>"
    by (simp add: POST_world_answering [OF p] unexpected_eq)
  have q: "printable plain_prose" by code_simp
  have d: "JSON_parse plain_prose = None" by code_simp
  have e: "regex_match plain_prose = None" by code_simp
  have "parse_content (\<lambda>n. n) (JString plain_prose) =
        Return \<lparr>status = 500,
          body = ErrorBody (js ''Failed to parse model output'') None
                   (Some (JString plain_prose))\<rparr>"
    by (simp add: parse_content_def strict_parse_string d e Response_json_def)
  then have t: "fst (POST (world_answering plain_prose) hello) =
     \<lparr>status = 500,
      body = ErrorBody (js ''Failed to parse model output'') None (Some (JString plain_prose))\<rparr>"
    by (simp add: POST_world_answering [OF q])
  from a b c r d e t show ?thesis by blast
qed

text \<open>
  C5. The claim says that every item of a 200 response has a non-empty question and a
  non-empty answer. The handler checks that both are strings and nothing more: a
  candidate whose question and answer are empty strings is returned.
\<close>

theorem empty_strings_accepted:
  "fst (POST (world_answering empty_strings) hello) =
     \<lparr>status = 200, body = QuizzesBody [\<lparr>question = [], answer = []\<rparr>]\<rparr>"
proof -
  have p: "printable empty_strings" by code_simp
  have "parse_content (\<lambda>n. n) (JString empty_strings) =
        Continue (JArray [JObject [(js ''question'', JString []), (js ''answer'', JString [])]])"
    by code_simp
  moreover have "normalize_quizzes
      (JArray [JObject [(js ''question'', JString []), (js ''answer'', JString [])]]) =
      [\<lparr>question = [], answer = []\<rparr>]"
    by code_simp
  ultimately show ?thesis
    by (simp add: POST_world_answering [OF p] respond_nonempty)
qed

text \<open>
  C5, amended. For every 200 response, every item of the quizzes array holds the string
  values of the \<open>question\<close> and \<open>answer\<close> properties of one element of the parsed
  candidate array (the parsed value itself, or its \<open>quizzes\<close> property); the strings
  may be empty.
\<close>

theorem items_are_string_fields:
  assumes "status (fst (POST w req)) = 200"
  shows "\<exists>content parsed xs qs.
           normalize_input w req = Some (content, parsed) \<and>
           (parsed = JArray xs \<or> get_prop parsed (js ''quizzes'') = Some (JArray xs)) \<and>
           body (fst (POST w req)) = QuizzesBody qs \<and>
           (\<forall>qa\<in>set qs. \<exists>x\<in>set xs.
              get_prop x (js ''question'') = Some (JString (question qa)) \<and>
              get_prop x (js ''answer'') = Some (JString (answer qa)))"
proof -
  from POST_success [of w req "[]"] assms
  obtain content parsed where n: "normalize_input w req = Some (content, parsed)"
    and ne: "normalize_quizzes parsed \<noteq> []"
    and r: "fst (POST w req) =
              \<lparr>status = 200, body = QuizzesBody (take 5 (normalize_quizzes parsed))\<rparr>"
    by blast
  from normalize_quizzes_nonempty [OF ne]
  obtain xs where xs: "parsed = JArray xs \<or> get_prop parsed (js ''quizzes'') = Some (JArray xs)"
    and f: "normalize_quizzes parsed = spec_filter xs"
    by blast
  have "\<exists>x\<in>set xs.
          get_prop x (js ''question'') = Some (JString (question qa)) \<and>
          get_prop x (js ''answer'') = Some (JString (answer qa))"
    if "qa \<in> set (take 5 (spec_filter xs))" for qa
  proof -
    from that have "qa \<in> set (spec_filter xs)" by (rule in_set_takeD)
    then obtain x where "x \<in> set xs" and "shape_ok x" and "qa = item_of x"
      by (auto simp: spec_filter_def)
    then show ?thesis using shape_ok_props [of x] by blast
  qed
  with n xs r f show ?thesis by auto
qed

theorem items_are_string_fields_witness:
  "status (fst (POST (world_answering one_quiz) hello)) = 200 \<and>
   (\<exists>content parsed qs.
      normalize_input (world_answering one_quiz) hello = Some (content, parsed) \<and>
      body (fst (POST (world_answering one_quiz) hello)) = QuizzesBody qs)"
proof -
  have p: "printable one_quiz" by code_simp
  have "parse_content (\<lambda>n. n) (JString one_quiz) = Continue (JArray [qa_object ''Q'' ''A''])"
    by code_simp
  moreover have "normalize_quizzes (JArray [qa_object ''Q'' ''A'']) = [item ''Q'' ''A'']"
    by code_simp
  ultimately have s: "status (fst (POST (world_answering one_quiz) hello)) = 200"
    by (simp add: POST_world_answering [OF p] respond_nonempty)
  from items_are_string_fields [OF s] s show ?thesis by blast
qed

text \<open>
  C7. The claim says that whenever the content is not JSON but contains an embedded JSON
  array literal surrounded by prose, the fallback finds that array and the endpoint
  returns its valid items. The pattern is greedy: with a closing bracket in the prose
  after the array, the match runs past the array, the second parse throws and the
  response is a 500 error.
\<close>

theorem greedy_match_counterexample:
  "prose_around = js ''Here you go: '' @ one_quiz @ js '' [end]'' \<and>
   JSON_parse prose_around = None \<and>
   JSON_parse one_quiz = Some (JArray [qa_object ''Q'' ''A'']) \<and>
   regex_match prose_around = Some (one_quiz @ js '' [end]'') \<and>
   fst (POST (world_answering prose_around) hello) =
     \<lparr>status = 500,
      body = ErrorBody (js ''Unexpected server error'') (Some (Message SyntaxError)) None\<rparr>"
proof -
  have p: "printable prose_around" by code_simp
  have a: "JSON_parse prose_around = None" by code_simp
  have b: "regex_match prose_around = Some (one_quiz @ js '' [end]'')" by code_simp
  have c: "JSON_parse (one_quiz @ js '' [end]'') = None" by code_simp
  have d: "JSON_parse one_quiz = Some (JArray [qa_object ''Q'' ''A''])" by code_simp
  have "parse_content (\<lambda>n. n) (JString prose_around) = Throw SyntaxError"
    by (simp add: parse_content_def strict_parse_string a b c)
  then have r: "fst (POST (world_answering prose_around) hello) =
     \<lparr>status = 500,
      body = ErrorBody (js ''Unexpected server error'') (Some (Message SyntaxError)) None\<rparr>"
    by (simp add: POST_world_answering [OF p] unexpected_eq)
  from prose_around_def a d b r show ?thesis by blast
qed

text \<open>
  C7, amended. When the content is a string that is not JSON, and the substring from its
  first \<open>[\<close> to its last \<open>]\<close> parses as a JSON array, the endpoint answers from that
  array: status 200 with its first five valid items when it has any, the 500 error
  \<open>No quizzes generated\<close> when it has none.
\<close>

theorem fallback_recovery:
  assumes "before_fetch w req = Continue (trimmed, key)"
    and "read_provider (fetch w (chat_completions key trimmed)) = Continue data"
    and "extract_content data = JString c"
    and "JSON_parse c = None"
    and "regex_match c = Some m"
    and "JSON_parse m = Some (JArray xs)"
  shows "(\<exists>pre post. c = pre @ m @ post \<and> 0x5B \<notin> set pre \<and> 0x5D \<notin> set post \<and>
            hd m = 0x5B \<and> last m = 0x5D) \<and>
         (spec_filter xs \<noteq> [] \<longrightarrow>
            fst (POST w req) = \<lparr>status = 200, body = QuizzesBody (take 5 (spec_filter xs))\<rparr>) \<and>
         (spec_filter xs = [] \<longrightarrow>
            fst (POST w req) =
              \<lparr>status = 500,
               body = ErrorBody (js ''No quizzes generated'') None (Some (JString c))\<rparr>)"
proof -
  have "parse_content (Number_toString w) (extract_content data) = Continue (JArray xs)"
    using assms(3-6) by (simp add: parse_content_fallback)
  with assms(1,2) have "normalize_input w req = Some (extract_content data, JArray xs)"
    by (rule normalize_input_eq)
  then have "fst (POST w req) = respond (JString c) (spec_filter xs)"
    using assms(3)
    by (simp add: POST_reached normalize_quizzes_Array map_filter_Boolean_spec)
  then show ?thesis
    using regex_match_span [OF assms(5)] by (simp add: respond_empty respond_nonempty)
qed

theorem fallback_recovery_witness:
  "regex_match prose_before = Some one_quiz \<and>
   fst (POST (world_answering prose_before) hello) =
     \<lparr>status = 200, body = QuizzesBody [item ''Q'' ''A'']\<rparr>"
proof -
  have p: "printable prose_before" by code_simp
  have n: "JSON_parse prose_before = None"
    by code_simp
  have m: "regex_match prose_before = Some one_quiz"
    by code_simp
  have j: "JSON_parse one_quiz = Some (JArray [qa_object ''Q'' ''A''])"
    by code_simp
  have f: "spec_filter [qa_object ''Q'' ''A''] = [item ''Q'' ''A'']"
    by code_simp
  from fallback_recovery
    [OF before_fetch_hello read_provider_completion [OF p] extract_content_completion n m j] f m
  show ?thesis by simp
qed

text \<open>
  C4. The claim says that \<open>text is required\<close> is returned exactly when the text field
  is absent or not a string, and \<open>text must not be empty\<close> exactly when the trimmed and
  truncated string is empty. The guard of line 10 is \<open>!text || typeof text !== 'string'\<close>,
  and the empty string is falsy: a body whose text is the empty string gets
  \<open>text is required\<close>.
\<close>

theorem empty_text_counterexample:
  "JSON_parse (request_body empty_text) = Some (JObject [(js ''text'', JString [])]) \<and>
   fst (POST (world_answering []) empty_text) =
     \<lparr>status = 400, body = ErrorBody (js ''text is required'') None None\<rparr>"
  by code_simp

text \<open>
  C4, amended. The endpoint returns 400 \<open>text is required\<close> exactly when the body is JSON
  other than \<open>null\<close> and its text field is absent, not a string, or the empty string; it
  returns 400 \<open>text must not be empty\<close> exactly when the text field is a non-empty
  string whose trimmed and truncated value is empty.
\<close>

theorem text_validation:
  "(fst (POST w req) = \<lparr>status = 400, body = ErrorBody (js ''text is required'') None None\<rparr>
      \<longleftrightarrow> (\<exists>v. JSON_parse (request_body req) = Some v \<and> v \<noteq> JNull \<and>
                (\<forall>s. get_prop v (js ''text'') = Some (JString s) \<longrightarrow> s = []))) \<and>
   (fst (POST w req) =
      \<lparr>status = 400, body = ErrorBody (js ''text must not be empty'') None None\<rparr>
      \<longleftrightarrow> (\<exists>v s. JSON_parse (request_body req) = Some v \<and>
                get_prop v (js ''text'') = Some (JString s) \<and> s \<noteq> [] \<and>
                trim_slice s 1000 = []))"
proof -
  have a: "validated_text req =
        Return \<lparr>status = 400, body = ErrorBody (js ''text is required'') None None\<rparr>
      \<longleftrightarrow> (\<exists>v. JSON_parse (request_body req) = Some v \<and> v \<noteq> JNull \<and>
                (\<forall>s. get_prop v (js ''text'') = Some (JString s) \<longrightarrow> s = []))"
    by (cases "JSON_parse (request_body req)")
       (auto simp: validated_text_eq check_text_required split: json.splits)
  have b: "validated_text req =
        Return \<lparr>status = 400, body = ErrorBody (js ''text must not be empty'') None None\<rparr>
      \<longleftrightarrow> (\<exists>v s. JSON_parse (request_body req) = Some v \<and>
                get_prop v (js ''text'') = Some (JString s) \<and> s \<noteq> [] \<and>
                trim_slice s 1000 = [])"
    by (cases "JSON_parse (request_body req)")
       (auto simp: validated_text_eq check_text_empty get_prop_def split: json.splits)
  show ?thesis
    using a b by (simp add: POST_400_iff)
qed

theorem text_validation_witness:
  "fst (POST (world_answering []) blank_text) =
     \<lparr>status = 400, body = ErrorBody (js ''text must not be empty'') None None\<rparr> \<and>
   fst (POST (world_answering []) empty_object) =
     \<lparr>status = 400, body = ErrorBody (js ''text is required'') None None\<rparr>"
proof -
  have a: "JSON_parse (request_body blank_text) = Some (JObject [(js ''text'', JString (js ''  ''))])"
    by code_simp
  have b: "trim_slice (js ''  '') 1000 = []"
    by code_simp
  have c: "JSON_parse (request_body empty_object) = Some (JObject [])"
    by code_simp
  have "\<exists>v s. JSON_parse (request_body blank_text) = Some v \<and>
          get_prop v (js ''text'') = Some (JString s) \<and> s \<noteq> [] \<and> trim_slice s 1000 = []"
    using a b by (simp add: get_prop_def js_def)
  moreover have "\<exists>v. JSON_parse (request_body empty_object) = Some v \<and> v \<noteq> JNull \<and>
          (\<forall>s. get_prop v (js ''text'') = Some (JString s) \<longrightarrow> s = [])"
    using c by (simp add: get_prop_def)
  ultimately show ?thesis
    using text_validation [of "world_answering []" blank_text]
      text_validation [of "world_answering []" empty_object]
    by blast
qed

text \<open>
  C9. When neither \<open>NEXT_PUBLIC_OPENAI_API_KEY\<close> nor \<open>OPENAI_API_KEY\<close> yields a key (each
  is unset or empty), every request that reaches the credential check, the third step of
  the fail-fast validation, gets the 500 response about the missing key, and no request
  at all leads to an outbound call; a request that fails the text validation before it
  gets the response of that validation. The public-prefixed variable is read first: the
  key is its value when it yields one, else the value of the private one.
\<close>

theorem missing_key:
  "(unset (NEXT_PUBLIC_OPENAI_API_KEY w) \<and> unset (OPENAI_API_KEY w) \<longrightarrow>
      snd (POST w req) = [] \<and>
      (validated_text req = Continue trimmed \<longrightarrow>
         fst (POST w req) =
           \<lparr>status = 500,
            body = ErrorBody
              (js ''Missing OpenAI API key in environment (set NEXT_PUBLIC_OPENAI_API_KEY or OPENAI_API_KEY)'')
              None None\<rparr>) \<and>
      (validated_text req = Return r \<longrightarrow> fst (POST w req) = r \<and> status r = 400) \<and>
      (validated_text req = Throw e \<longrightarrow> fst (POST w req) = unexpected e)) \<and>
   (\<not> unset (NEXT_PUBLIC_OPENAI_API_KEY w) \<longrightarrow> apiKey w = NEXT_PUBLIC_OPENAI_API_KEY w) \<and>
   (unset (NEXT_PUBLIC_OPENAI_API_KEY w) \<longrightarrow> apiKey w = OPENAI_API_KEY w)"
proof -
  have k: "apiKey w = (if unset (NEXT_PUBLIC_OPENAI_API_KEY w) then OPENAI_API_KEY w
                       else NEXT_PUBLIC_OPENAI_API_KEY w)"
    by (auto simp: apiKey_def env_or_def unset_def split: option.splits)
  have m: "POST w req =
      (case validated_text req of
         Continue t \<Rightarrow>
           (\<lparr>status = 500,
             body = ErrorBody
               (js ''Missing OpenAI API key in environment (set NEXT_PUBLIC_OPENAI_API_KEY or OPENAI_API_KEY)'')
               None None\<rparr>, [])
       | Return r \<Rightarrow> (r, [])
       | Throw e \<Rightarrow> (unexpected e, []))"
    if "unset (NEXT_PUBLIC_OPENAI_API_KEY w) \<and> unset (OPENAI_API_KEY w)"
    using that by (cases "validated_text req")
      (simp_all add: POST_def before_fetch_def check_apiKey_unset)
  show ?thesis
    using k m validated_text_Return [of req r] by (auto split: step.splits)
qed

theorem missing_key_witness:
  "snd (POST world_without_key hello) = [] \<and>
   fst (POST world_without_key hello) =
     \<lparr>status = 500,
      body = ErrorBody
        (js ''Missing OpenAI API key in environment (set NEXT_PUBLIC_OPENAI_API_KEY or OPENAI_API_KEY)'')
        None None\<rparr> \<and>
   apiKey (world_answering []) = Some (js ''sk-test'')"
proof -
  have a: "unset (NEXT_PUBLIC_OPENAI_API_KEY world_without_key) \<and>
           unset (OPENAI_API_KEY world_without_key)"
    by (simp add: unset_def world_without_key_def)
  have b: "unset (NEXT_PUBLIC_OPENAI_API_KEY (world_answering []))"
    by (simp add: unset_def world_answering_def)
  have c: "OPENAI_API_KEY (world_answering []) = Some (js ''sk-test'')"
    by (simp add: world_answering_def)
  from missing_key [of world_without_key hello "js ''hello world''"] a validated_text_hello
    missing_key [of "world_answering []"] b c
  show ?thesis by simp
qed

text \<open>
  C8. The claim says that a text longer than 1000 characters is cut to exactly its first
  1000 characters, and that trimming and truncating is idempotent. The text is trimmed
  before it is cut: with a space as the character 1000 of a trimmed text, the cut leaves
  a trailing space, which a second application removes; with a leading space, the result
  is not the first 1000 characters of the input.
\<close>

theorem trim_and_truncate_counterexample:
  "1000 < length space_at_1000 \<and>
   check_text (Some (JString space_at_1000)) = Continue (trim_slice space_at_1000 1000) \<and>
   trim_slice space_at_1000 1000 = replicate 999 0x61 @ [0x20] \<and>
   trim_slice (trim_slice space_at_1000 1000) 1000 = replicate 999 0x61 \<and>
   trim_slice (trim_slice space_at_1000 1000) 1000 \<noteq> trim_slice space_at_1000 1000 \<and>
   1000 < length space_first \<and>
   trim_slice space_first 1000 = replicate 1000 0x61 \<and>
   take 1000 space_first = 0x20 # replicate 999 0x61 \<and>
   trim_slice space_first 1000 \<noteq> take 1000 space_first"
proof -
  have a: "1000 < length space_at_1000" by (simp add: space_at_1000_def)
  have n: "space_at_1000 \<noteq> []" by (simp add: space_at_1000_def)
  have b: "check_text (Some (JString space_at_1000)) = Continue (trim_slice space_at_1000 1000)"
    using n by (simp add: check_text_def trim_slice_space_at_1000)
  have c: "trim_slice (trim_slice space_at_1000 1000) 1000 = replicate 999 0x61"
    by (simp add: trim_slice_space_at_1000) (simp add: trim_slice_eq trim_letters_space)
  have d: "1000 < length space_first" by (simp add: space_first_def)
  have e: "take 1000 space_first = 0x20 # replicate 999 0x61"
    by (simp add: space_first_def take_Cons')
  have f: "replicate 1000 (0x61 :: code_unit) \<noteq> 0x20 # replicate 999 0x61"
  proof
    assume "replicate 1000 (0x61 :: code_unit) = 0x20 # replicate 999 0x61"
    then have "hd (replicate 1000 (0x61 :: code_unit)) = hd (0x20 # replicate 999 0x61)"
      by (rule arg_cong)
    then show False by simp
  qed
  show ?thesis
    using a b c d e f by (simp add: trim_slice_space_at_1000 trim_slice_space_first)
qed

text \<open>
  C8, amended. Server and client compute \<open>take 1000 (trim text)\<close>: at most 1000 code
  units, exactly the first 1000 of the trimmed text when that is longer than 1000 (the
  first 1000 of the input itself when it has no leading whitespace); the text area keeps
  the first 1000 code units of what is typed. Truncation alone is idempotent. Trimming
  and truncating once more yields the trimmed result of the first application, which is
  the same string when the trimmed text has at most 1000 code units or the result does
  not end in whitespace.
\<close>

theorem trim_and_truncate:
  "(s \<noteq> [] \<and> trim_slice s 1000 \<noteq> [] \<longrightarrow>
      check_text (Some (JString s)) = Continue (trim_slice s 1000)) \<and>
   (page_text st = s \<and> trim_slice s 1000 \<noteq> [] \<longrightarrow>
      snd (handleGenerate st) = Some (trim_slice s 1000)) \<and>
   page_text (onChange v st) = take 1000 v \<and>
   trim_slice s 1000 = take 1000 (trim s) \<and>
   length (trim_slice s 1000) \<le> 1000 \<and>
   (1000 < length (trim s) \<longrightarrow> length (trim_slice s 1000) = 1000) \<and>
   (\<not> is_trim_space (hd s) \<and> 1000 < length (trim s) \<longrightarrow> trim_slice s 1000 = take 1000 s) \<and>
   slice0 (slice0 s 1000) 1000 = slice0 s 1000 \<and>
   trim_slice (trim_slice s 1000) 1000 = trim (trim_slice s 1000) \<and>
   (length (trim s) \<le> 1000 \<longrightarrow> trim_slice (trim_slice s 1000) 1000 = trim_slice s 1000) \<and>
   (\<not> is_trim_space (last (trim_slice s 1000)) \<longrightarrow>
      trim_slice (trim_slice s 1000) 1000 = trim_slice s 1000)"
proof -
  have a: "check_text (Some (JString s)) = Continue (trim_slice s 1000)"
    if "s \<noteq> [] \<and> trim_slice s 1000 \<noteq> []"
    using that by (simp add: check_text_def)
  have b: "snd (handleGenerate st) = Some (trim_slice s 1000)"
    if "page_text st = s \<and> trim_slice s 1000 \<noteq> []"
    using that by (auto simp: handleGenerate_def MAX_LEN_def)
  have c: "page_text (onChange v st) = take 1000 v"
    by (simp add: onChange_def MAX_LEN_def slice0_def)
  have d: "length (trim_slice s 1000) \<le> 1000"
    by (simp add: trim_slice_eq)
  have e: "length (trim_slice s 1000) = 1000" if "1000 < length (trim s)"
    using that by (simp add: trim_slice_eq)
  have f: "trim_slice s 1000 = take 1000 s" if "\<not> is_trim_space (hd s) \<and> 1000 < length (trim s)"
    using that by (simp add: trim_slice_prefix)
  have g: "slice0 (slice0 s 1000) 1000 = slice0 s 1000"
    by (simp add: slice0_def)
  show ?thesis
    using a b c d e f g trim_slice_eq [of s 1000] trim_slice_again [of s 1000]
      trim_slice_short [of s 1000] trim_slice_no_space_at_end [of s 1000]
    by blast
qed

theorem trim_and_truncate_witness:
  "check_text (Some (JString space_first)) = Continue (replicate 1000 0x61) \<and>
   snd (handleGenerate \<lparr>page_text = space_first, page_quizzes = [], page_loading = False,
                        page_error = None\<rparr>) = Some (replicate 1000 0x61) \<and>
   length (trim_slice space_first 1000) = 1000 \<and>
   trim_slice (trim_slice space_first 1000) 1000 = replicate 1000 0x61"
proof -
  let ?st = "\<lparr>page_text = space_first, page_quizzes = [], page_loading = False,
              page_error = None\<rparr>"
  have p: "page_text ?st = space_first" by simp
  have n: "space_first \<noteq> []" by (simp add: space_first_def)
  have r: "trim_slice space_first 1000 \<noteq> []" by (simp add: trim_slice_space_first)
  have l: "1000 < length (trim space_first)" by (simp add: trim_space_first)
  have z: "\<not> is_trim_space (last (trim_slice space_first 1000))"
    by (simp add: trim_slice_space_first letters_and_space)
  from trim_and_truncate [of space_first ?st] p n r l z
  have "check_text (Some (JString space_first)) = Continue (trim_slice space_first 1000) \<and>
        snd (handleGenerate ?st) = Some (trim_slice space_first 1000) \<and>
        length (trim_slice space_first 1000) = 1000 \<and>
        trim_slice (trim_slice space_first 1000) 1000 = trim_slice space_first 1000"
    by blast
  then show ?thesis by (simp only: trim_slice_space_first)
qed

end
